theory Spec2Isabelle
  imports Main "HOL-Library.Word"
begin

section \<open>Bytes and library constants\<close>

type_synonym byte = "8 word"
type_synonym bytes = "byte list"

text \<open>libuv status codes (negated errno values on Linux) used by \<open>tls_wrap.cc\<close>.\<close>

definition UV_EOF :: int where "UV_EOF = - 4095"
definition UV_ECANCELED :: int where "UV_ECANCELED = - 125"
definition UV_EPROTO :: int where "UV_EPROTO = - 71"

text \<open>OpenSSL return codes used by the callbacks in \<open>node_crypto.cc\<close>.\<close>

definition OPENSSL_NPN_NEGOTIATED :: int where "OPENSSL_NPN_NEGOTIATED = 1"
definition OPENSSL_NPN_NO_OVERLAP :: int where "OPENSSL_NPN_NO_OVERLAP = 2"
definition SSL_TLSEXT_ERR_OK :: int where "SSL_TLSEXT_ERR_OK = 0"
definition SSL_TLSEXT_ERR_ALERT_FATAL :: int where "SSL_TLSEXT_ERR_ALERT_FATAL = 2"
definition SSL_TLSEXT_ERR_NOACK :: int where "SSL_TLSEXT_ERR_NOACK = 3"

section \<open>Session tickets: \<open>SecureContext::TicketCompatibilityCallback\<close>\<close>

text \<open>
  The three ticket key parts of a \<open>SecureContext\<close> (\<open>node_crypto.h\<close>: three arrays of
  16 bytes each).
\<close>

record SecureContext =
  ticket_key_name :: bytes
  ticket_key_hmac :: bytes
  ticket_key_aes :: bytes

text \<open>
  What the cryptographic library answers during one call of the callback: the status of
  \<open>RAND_bytes\<close> and the bytes it stored, and the statuses of \<open>EVP_EncryptInit_ex\<close>,
  \<open>EVP_DecryptInit_ex\<close> and \<open>HMAC_Init_ex\<close>. The library is an external collaborator;
  its answers are inputs of the model.
\<close>

record crypto_answers =
  RAND_bytes_ret :: int
  RAND_bytes_out :: bytes
  EVP_EncryptInit_ret :: int
  EVP_DecryptInit_ret :: int
  HMAC_Init_ret :: int

text \<open>The callback's result: the returned int and the \<open>name\<close> and \<open>iv\<close> buffers afterwards.\<close>

record ticket_result =
  ticket_ret :: int
  ticket_name :: bytes
  ticket_iv :: bytes

text \<open>\<open>memcmp(a, b, n) != 0\<close> on buffers that hold at least \<open>n\<close> bytes.\<close>

definition memcmp_differs :: "bytes \<Rightarrow> bytes \<Rightarrow> nat \<Rightarrow> bool" where
  "memcmp_differs a b n = (take n a \<noteq> take n b)"

text \<open>\<open>memcpy(dst, src, n)\<close>: the first \<open>n\<close> bytes of \<open>dst\<close> are replaced.\<close>

definition memcpy :: "bytes \<Rightarrow> bytes \<Rightarrow> nat \<Rightarrow> bytes" where
  "memcpy dst src n = take n src @ drop n dst"

definition TicketCompatibilityCallback ::
  "SecureContext \<Rightarrow> crypto_answers \<Rightarrow> bytes \<Rightarrow> bytes \<Rightarrow> int \<Rightarrow> ticket_result" where
  "TicketCompatibilityCallback sc lib name iv enc =
     (if enc \<noteq> 0 then
        (let name' = memcpy name (ticket_key_name sc) 16;
             iv' = (if RAND_bytes_ret lib \<le> 0 then iv else memcpy iv (RAND_bytes_out lib) 16)
         in if RAND_bytes_ret lib \<le> 0 \<or> EVP_EncryptInit_ret lib \<le> 0 \<or> HMAC_Init_ret lib \<le> 0
            then \<lparr>ticket_ret = - 1, ticket_name = name', ticket_iv = iv'\<rparr>
            else \<lparr>ticket_ret = 1, ticket_name = name', ticket_iv = iv'\<rparr>)
      else if memcmp_differs name (ticket_key_name sc) 16 then
        \<comment> \<open>The ticket key name does not match. Discard the ticket.\<close>
        \<lparr>ticket_ret = 0, ticket_name = name, ticket_iv = iv\<rparr>
      else if EVP_DecryptInit_ret lib \<le> 0 \<or> HMAC_Init_ret lib \<le> 0 then
        \<lparr>ticket_ret = - 1, ticket_name = name, ticket_iv = iv\<rparr>
      else \<lparr>ticket_ret = 1, ticket_name = name, ticket_iv = iv\<rparr>)"

section \<open>ALPN: \<open>SSLWrap::SelectALPNCallback\<close>\<close>

text \<open>
  A protocol list is kept decoded: each protocol name is a byte string, in the order of
  the wire format (a sequence of length-prefixed names).
\<close>

type_synonym proto = bytes

text \<open>
  OpenSSL's \<open>SSL_select_next_proto(out, outlen, server, server_len, client, client_len)\<close>,
  an external library function, modelled after its documented contract: the first entry
  of its \<open>server\<close> argument that also occurs in its \<open>client\<close> argument is selected with
  status \<open>OPENSSL_NPN_NEGOTIATED\<close>; without a common entry the first entry of the
  \<open>client\<close> argument is returned with status \<open>OPENSSL_NPN_NO_OVERLAP\<close>.
\<close>

fun SSL_select_next_proto :: "proto list \<Rightarrow> proto list \<Rightarrow> int \<times> proto" where
  "SSL_select_next_proto [] client =
     (OPENSSL_NPN_NO_OVERLAP, (case client of [] \<Rightarrow> [] | c # _ \<Rightarrow> c))"
| "SSL_select_next_proto (p # server) client =
     (if p \<in> set client then (OPENSSL_NPN_NEGOTIATED, p)
      else SSL_select_next_proto server client)"

text \<open>
  \<open>SelectALPNCallback\<close> passes the buffer stored by \<open>SetALPNProtocols\<close> on the server
  (\<open>alpn_protos\<close>) in the \<open>server\<close> position and the list advertised by the client
  (\<open>in\<close>) in the \<open>client\<close> position. The result is the returned status and \<open>*out\<close>.
\<close>

definition SelectALPNCallback :: "proto list \<Rightarrow> proto list \<Rightarrow> int \<times> proto" where
  "SelectALPNCallback alpn_protos inp =
     (let (status, out) = SSL_select_next_proto alpn_protos inp
      in (if status = OPENSSL_NPN_NEGOTIATED then SSL_TLSEXT_ERR_OK
          else SSL_TLSEXT_ERR_NOACK, out))"

text \<open>The selection the specification describes: the first entry of the client's list
  that the server supports.\<close>

definition first_in_client_order :: "proto list \<Rightarrow> proto list \<Rightarrow> proto option" where
  "first_in_client_order alpn_protos inp = find (\<lambda>p. p \<in> set alpn_protos) inp"

section \<open>The connection: \<open>TLSWrap\<close> with its \<open>SSLWrap\<close> base\<close>

datatype Kind = kClient | kServer

text \<open>A \<open>WriteWrap*\<close> is the identity of a write request.\<close>

type_synonym WriteWrap = nat

text \<open>
  The classes of \<open>SSL_get_error\<close>. \<open>SSL_ERROR_OTHER\<close> stands for every class
  that \<open>GetSSLError\<close> does not list (its \<open>default: UNREACHABLE()\<close>).
\<close>

datatype ssl_error =
    SSL_ERROR_NONE | SSL_ERROR_SSL | SSL_ERROR_WANT_READ | SSL_ERROR_WANT_WRITE
  | SSL_ERROR_WANT_X509_LOOKUP | SSL_ERROR_SYSCALL | SSL_ERROR_ZERO_RETURN | SSL_ERROR_OTHER

text \<open>The \<open>Local<Value>\<close> that \<open>GetSSLError\<close> returns.\<close>

datatype ssl_arg = NoValue | ZeroReturn | SslException string

text \<open>
  Everything the connection does to its collaborators, in order: the consumer
  (\<open>EmitRead\<close>, \<open>Done\<close> of a write request, the JavaScript handlers), the underlying
  stream, the session engine and the outgoing record buffer.
\<close>

datatype event =
    EmitRead bytes                     \<comment> \<open>\<open>EmitRead(avail, buf)\<close>: plaintext for the consumer\<close>
  | EmitReadStatus int                 \<comment> \<open>\<open>EmitRead(nread)\<close> with a negative status\<close>
  | Done WriteWrap int "string option" \<comment> \<open>\<open>w->Done(status, error_str)\<close>\<close>
  | StreamWrite bytes int bool         \<comment> \<open>\<open>underlying_stream()->Write\<close>: data, \<open>res.err\<close>, \<open>res.async\<close>\<close>
  | StreamShutdown                     \<comment> \<open>\<open>stream_->DoShutdown\<close>\<close>
  | AfterWrite int                     \<comment> \<open>the stream calls \<open>OnStreamAfterWrite(req_wrap, status)\<close>\<close>
  | BioRead nat                        \<comment> \<open>\<open>enc_out_->Read(nullptr, n)\<close>\<close>
  | SslRead | SslWrite bytes | SslShutdown
  | HelloParse bytes                   \<comment> \<open>\<open>hello_parser_.Parse(data, avail)\<close>\<close>
  | OnClientHello | OnHandshakeStart | OnHandshakeDone | OnNewSession | OnCertCb
  | CertCbContinue                     \<comment> \<open>\<open>cb(arg)\<close>: the continuation set by \<open>WaitForCertCb\<close> is called\<close>
  | OnError ssl_arg | OnTypeError | ThrowError

text \<open>The closures given to \<open>env()->SetImmediate\<close>.\<close>

datatype immediate = ImmInvokeQueued | ImmAfterWrite

text \<open>
  The callbacks the session engine makes while it runs inside \<open>SSL_read\<close>,
  \<open>SSL_write\<close> or \<open>SSL_shutdown\<close>: \<open>SSLInfoCallback\<close> (handshake start, handshake
  done, and what \<open>SSL_renegotiate_pending\<close> says then), \<open>NewSessionCallback\<close> (with the
  size \<open>i2d_SSL_SESSION\<close> reports) and \<open>SSLCertCallback\<close>.
\<close>

datatype engine_cb = InfoCb bool bool bool | NewSessionCb int | CertCb

text \<open>
  The session engine is an external collaborator; what it does at one call is an input
  of the model: the callbacks it makes, how many bytes it takes from \<open>enc_in_\<close>, the
  bytes it appends to \<open>enc_out_\<close>, the value it returns, the plaintext it stores for a
  positive return of \<open>SSL_read\<close>, the class \<open>SSL_get_error\<close> gives and the text of its
  error queue, and whether it has now seen the peer's close-notify. \<open>consumer_destroys\<close>
  is the consumer's reaction to the plaintext of this call: its \<open>OnRead\<close> handler calls
  \<open>destroySSL\<close> (the case the read loop of \<open>ClearOut\<close> checks for).
\<close>

record ssl_resp =
  r_cbs :: "engine_cb list"
  r_consumed :: nat
  r_produced :: bytes
  r_ret :: int
  r_plain :: bytes
  r_err :: ssl_error
  r_msg :: string
  r_recv_shutdown :: bool
  consumer_destroys :: bool

text \<open>
  What the underlying stream and the outgoing record buffer answer at one transport
  write: the number of bytes \<open>PeekMultiple\<close> gathers from at most
  \<open>kSimultaneousBufferCount\<close> regions (the chunk layout of \<open>NodeBIO\<close> is not part of
  the sources), and the \<open>StreamWriteResult\<close>.
\<close>

record stream_resp =
  peek_size :: nat
  res_err :: int
  res_async :: bool

text \<open>
  The fields of \<open>TLSWrap\<close> and of its base \<open>SSLWrap<TLSWrap>\<close> (named as in the
  source, without the trailing underscore). \<open>ssl\<close> and \<open>stream\<close> say that the pointer is
  not null; \<open>cert_cb\<close> says that a continuation is installed (the only one ever installed
  is \<open>OnClientHelloParseEnd\<close>); \<open>hello_ended\<close> is \<open>hello_parser_.IsEnded()\<close>;
  \<open>enc_in\<close> and \<open>enc_out\<close> are the readable contents of the two record buffers;
  \<open>received_shutdown\<close> is \<open>SSL_get_shutdown(ssl) & SSL_RECEIVED_SHUTDOWN\<close>.
  \<open>immediates\<close> is the queue of \<open>SetImmediate\<close>, \<open>events\<close> the trace, and the two
  scripts hold the future answers of the engine and of the stream.
\<close>

record TLSWrap =
  kind :: Kind
  ssl :: bool
  session_callbacks :: bool
  awaiting_new_session :: bool
  cert_cb :: bool
  cert_cb_running :: bool
  hello_ended :: bool
  enc_in :: bytes
  enc_out :: bytes
  received_shutdown :: bool
  stream :: bool
  started :: bool
  established :: bool
  shutdown :: bool
  eof :: bool
  in_dowrite :: bool
  write_callback_scheduled :: bool
  write_size :: nat
  current_write :: "WriteWrap option"
  current_empty_write :: "WriteWrap option"
  pending_cleartext_input :: bytes
  error :: string
  immediates :: "immediate list"
  events :: "event list"
  ssl_script :: "ssl_resp list"
  stream_script :: "stream_resp list"

definition is_server :: "TLSWrap \<Rightarrow> bool" where
  "is_server s = (kind s = kServer)"

definition is_client :: "TLSWrap \<Rightarrow> bool" where
  "is_client s = (kind s = kClient)"

definition is_awaiting_new_session :: "TLSWrap \<Rightarrow> bool" where
  "is_awaiting_new_session s = awaiting_new_session s"

definition is_waiting_cert_cb :: "TLSWrap \<Rightarrow> bool" where
  "is_waiting_cert_cb s = cert_cb s"

definition kMaxSessionSize :: int where
  "kMaxSessionSize = 10 * 1024"

text \<open>The state after the constructor and \<open>InitSSL\<close>; "ended" is the initial state of
  the hello parser.\<close>

definition new_TLSWrap :: "Kind \<Rightarrow> ssl_resp list \<Rightarrow> stream_resp list \<Rightarrow> TLSWrap" where
  "new_TLSWrap k engine transport =
     \<lparr>kind = k, ssl = True, session_callbacks = False, awaiting_new_session = False,
      cert_cb = False, cert_cb_running = False, hello_ended = True, enc_in = [],
      enc_out = [], received_shutdown = False, stream = True, started = False,
      established = False, shutdown = False, eof = False, in_dowrite = False,
      write_callback_scheduled = False, write_size = 0, current_write = None,
      current_empty_write = None, pending_cleartext_input = [], error = [],
      immediates = [], events = [], ssl_script = engine, stream_script = transport\<rparr>"

definition emit :: "event \<Rightarrow> TLSWrap \<Rightarrow> TLSWrap" where
  "emit e s = s\<lparr>events := events s @ [e]\<rparr>"

subsection \<open>Callbacks of the session engine (\<open>node_crypto.cc\<close>, \<open>tls_wrap.cc\<close>)\<close>

text \<open>
  \<open>MakeCallback\<close> runs a JavaScript handler. The model records the call; the calls the
  handler makes on the connection reach it as later inputs.
\<close>

definition SSLInfoCallback_done :: "bool \<Rightarrow> bool \<Rightarrow> TLSWrap \<Rightarrow> TLSWrap" where
  "SSLInfoCallback_done hs_done renegotiate_pending s =
     (if hs_done \<and> \<not> renegotiate_pending
      then emit OnHandshakeDone (s\<lparr>established := True\<rparr>)
      else s)"

definition SSLInfoCallback :: "bool \<Rightarrow> bool \<Rightarrow> bool \<Rightarrow> TLSWrap \<Rightarrow> TLSWrap" where
  "SSLInfoCallback hs_start hs_done renegotiate_pending s =
     (if \<not> (hs_start \<or> hs_done) then s
      else SSLInfoCallback_done hs_done renegotiate_pending
             (if hs_start then emit OnHandshakeStart s else s))"

definition NewSessionCallback :: "int \<Rightarrow> TLSWrap \<Rightarrow> int \<times> TLSWrap" where
  "NewSessionCallback sz s =
     (if \<not> session_callbacks s then (0, s)
      else if sz > kMaxSessionSize then (0, s)
      else if is_server s then (0, emit OnNewSession (s\<lparr>awaiting_new_session := True\<rparr>))
      else (0, emit OnNewSession s))"

text \<open>\<open>SSLCertCallback\<close>: after the handler of \<open>oncertcb\<close> has run, then the function.\<close>

definition SSLCertCallback_called :: "TLSWrap \<Rightarrow> int \<times> TLSWrap" where
  "SSLCertCallback_called s = (if \<not> cert_cb_running s then (1, s) else (- 1, s))"

definition SSLCertCallback :: "TLSWrap \<Rightarrow> int \<times> TLSWrap" where
  "SSLCertCallback s =
     (if \<not> is_server s then (1, s)
      else if \<not> is_waiting_cert_cb s then (1, s)
      else if cert_cb_running s then (- 1, s)
      else SSLCertCallback_called (emit OnCertCb (s\<lparr>cert_cb_running := True\<rparr>)))"

definition WaitForCertCb :: "TLSWrap \<Rightarrow> TLSWrap" where
  "WaitForCertCb s = s\<lparr>cert_cb := True\<rparr>"

fun run_cb :: "engine_cb \<Rightarrow> TLSWrap \<Rightarrow> TLSWrap" where
  "run_cb (InfoCb a b c) s = SSLInfoCallback a b c s"
| "run_cb (NewSessionCb sz) s = snd (NewSessionCallback sz s)"
| "run_cb CertCb s = snd (SSLCertCallback s)"

fun run_cbs :: "engine_cb list \<Rightarrow> TLSWrap \<Rightarrow> TLSWrap" where
  "run_cbs [] s = s"
| "run_cbs (c # cs) s = run_cbs cs (run_cb c s)"

subsection \<open>Calls into the session engine and the stream\<close>

text \<open>The answer of an engine that has nothing to do: \<open>-1\<close> with \<open>SSL_ERROR_WANT_READ\<close>.\<close>

definition idle_resp :: ssl_resp where
  "idle_resp = \<lparr>r_cbs = [], r_consumed = 0, r_produced = [], r_ret = - 1, r_plain = [],
     r_err = SSL_ERROR_WANT_READ, r_msg = [], r_recv_shutdown = False,
     consumer_destroys = False\<rparr>"

text \<open>The engine's traffic with the two record buffers, and what it knows of the
  peer's close-notify afterwards.\<close>

definition engine_io :: "ssl_resp \<Rightarrow> TLSWrap \<Rightarrow> TLSWrap" where
  "engine_io r s =
     s\<lparr>enc_in := drop (r_consumed r) (enc_in s),
       enc_out := enc_out s @ r_produced r,
       received_shutdown := (received_shutdown s \<or> r_recv_shutdown r)\<rparr>"

definition ssl_effects :: "ssl_resp \<Rightarrow> TLSWrap \<Rightarrow> TLSWrap" where
  "ssl_effects r s = engine_io r (run_cbs (r_cbs r) s)"

text \<open>One call of \<open>SSL_read\<close>, \<open>SSL_write\<close> or \<open>SSL_shutdown\<close> (the event says which):
  the next answer of the script is taken and its effects happen.\<close>

definition ssl_call :: "event \<Rightarrow> TLSWrap \<Rightarrow> ssl_resp \<times> TLSWrap" where
  "ssl_call e s =
     (case ssl_script s of
        [] \<Rightarrow> (idle_resp, emit e s)
      | r # rs \<Rightarrow> (r, ssl_effects r (emit e (s\<lparr>ssl_script := rs\<rparr>))))"

definition default_stream_resp :: "TLSWrap \<Rightarrow> stream_resp" where
  "default_stream_resp s = \<lparr>peek_size = length (enc_out s), res_err = 0, res_async = True\<rparr>"

definition stream_next :: "TLSWrap \<Rightarrow> stream_resp \<times> TLSWrap" where
  "stream_next s =
     (case stream_script s of
        [] \<Rightarrow> (default_stream_resp s, s)
      | q # qs \<Rightarrow> (q, s\<lparr>stream_script := qs\<rparr>))"

definition SetImmediate :: "immediate \<Rightarrow> TLSWrap \<Rightarrow> TLSWrap" where
  "SetImmediate c s = s\<lparr>immediates := immediates s @ [c]\<rparr>"

subsection \<open>\<open>tls_wrap.cc\<close>\<close>

text \<open>
  A function of the source is written as one definition per block of its body, each
  named after the function. A result \<open>None\<close> is a failed \<open>CHECK\<close>: the process aborts.
\<close>

text \<open>\<open>InvokeQueued\<close>; no caller uses the bool it returns.\<close>

definition InvokeQueued :: "int \<Rightarrow> string option \<Rightarrow> TLSWrap \<Rightarrow> TLSWrap" where
  "InvokeQueued status error_str s =
     (if \<not> write_callback_scheduled s then s
      else case current_write s of
             None \<Rightarrow> s
           | Some w \<Rightarrow> emit (Done w status error_str) (s\<lparr>current_write := None\<rparr>))"

text \<open>
  \<open>GetSSLError\<close>: the value it returns, or \<open>None\<close> where it reaches \<open>UNREACHABLE()\<close>.
\<close>

definition GetSSLError :: "ssl_resp \<Rightarrow> TLSWrap \<Rightarrow> ssl_arg option" where
  "GetSSLError r s =
     (if \<not> ssl s then Some NoValue
      else case r_err r of
             SSL_ERROR_NONE \<Rightarrow> Some NoValue
           | SSL_ERROR_WANT_READ \<Rightarrow> Some NoValue
           | SSL_ERROR_WANT_WRITE \<Rightarrow> Some NoValue
           | SSL_ERROR_WANT_X509_LOOKUP \<Rightarrow> Some NoValue
           | SSL_ERROR_ZERO_RETURN \<Rightarrow> Some ZeroReturn
           | SSL_ERROR_SSL \<Rightarrow> Some (SslException (r_msg r))
           | SSL_ERROR_SYSCALL \<Rightarrow> Some (SslException (r_msg r))
           | SSL_ERROR_OTHER \<Rightarrow> None)"

text \<open>The string \<open>GetSSLError\<close> leaves in \<open>*msg\<close>: assigned for an exception only.\<close>

definition error_text :: "ssl_arg \<Rightarrow> string \<Rightarrow> string" where
  "error_text arg old = (case arg of SslException m \<Rightarrow> m | _ \<Rightarrow> old)"

text \<open>\<open>EncOut\<close>, from the last block to the first: after the transport write;
  the transport write; no encrypted output pending; the part after the guards.\<close>

definition EncOut_written :: "stream_resp \<Rightarrow> TLSWrap \<Rightarrow> TLSWrap" where
  "EncOut_written q s =
     (if res_err q \<noteq> 0 then InvokeQueued (res_err q) None s
      else if \<not> res_async q then SetImmediate ImmAfterWrite s
      else s)"

definition EncOut_write :: "stream_resp \<times> TLSWrap \<Rightarrow> TLSWrap option" where
  "EncOut_write qs =
     (case qs of (q, s) \<Rightarrow>
        let n = min (peek_size q) (length (enc_out s))
        in if n = 0 then None
           else Some (EncOut_written q
                  (emit (StreamWrite (take n (enc_out s)) (res_err q) (res_async q))
                     (s\<lparr>write_size := n\<rparr>))))"

definition EncOut_no_output :: "TLSWrap \<Rightarrow> TLSWrap" where
  "EncOut_no_output s =
     (if pending_cleartext_input s = [] then
        (if \<not> in_dowrite s then InvokeQueued 0 None s
         else SetImmediate ImmInvokeQueued s)
      else s)"

definition EncOut_split_off :: "TLSWrap \<Rightarrow> TLSWrap" where
  "EncOut_split_off s =
     (if established s \<and> current_write s \<noteq> None
      then s\<lparr>write_callback_scheduled := True\<rparr> else s)"

definition EncOut_flush :: "TLSWrap \<Rightarrow> TLSWrap option" where
  "EncOut_flush s =
     (if \<not> ssl s then Some s
      else if enc_out s = [] then Some (EncOut_no_output s)
      else EncOut_write (stream_next s))"

definition EncOut :: "TLSWrap \<Rightarrow> TLSWrap option" where
  "EncOut s =
     (if \<not> hello_ended s then Some s
      else if write_size s \<noteq> 0 then Some s
      else if is_awaiting_new_session s then Some s
      else EncOut_flush (EncOut_split_off s))"

text \<open>\<open>TLSWrap::DestroySSL\<close> and the \<open>SSLWrap::DestroySSL\<close> it calls.\<close>

definition SSLWrap_DestroySSL :: "TLSWrap \<Rightarrow> TLSWrap" where
  "SSLWrap_DestroySSL s = (if \<not> ssl s then s else s\<lparr>ssl := False\<rparr>)"

definition DestroySSL_release :: "TLSWrap \<Rightarrow> TLSWrap" where
  "DestroySSL_release s =
     (if stream s then s\<lparr>enc_in := [], enc_out := [], stream := False\<rparr>
      else s\<lparr>enc_in := [], enc_out := []\<rparr>)"

definition DestroySSL :: "TLSWrap \<Rightarrow> TLSWrap" where
  "DestroySSL s =
     DestroySSL_release
       (SSLWrap_DestroySSL
          (InvokeQueued UV_ECANCELED (Some ''Canceled because of SSL destruction'')
             (s\<lparr>write_callback_scheduled := True\<rparr>)))"

text \<open>
  The read loop of \<open>ClearOut\<close>, one engine answer per \<open>SSL_read\<close>. The consumer
  allocates what \<open>EmitAlloc\<close> asks for, so each positive read is delivered by one
  \<open>EmitRead\<close>. The result is \<open>Inl\<close> where the loop returns from \<open>ClearOut\<close>
  (\<open>ssl_ == nullptr\<close> after the consumer ran) and \<open>Inr\<close> with the last answer where it
  breaks.
\<close>

definition deliver :: "ssl_resp \<Rightarrow> TLSWrap \<Rightarrow> TLSWrap" where
  "deliver r s =
     (if consumer_destroys r then DestroySSL (emit (EmitRead (r_plain r)) s)
      else emit (EmitRead (r_plain r)) s)"

fun read_loop :: "ssl_resp list \<Rightarrow> TLSWrap \<Rightarrow> TLSWrap + (ssl_resp \<times> TLSWrap)" where
  "read_loop [] s = Inr (idle_resp, emit SslRead s)"
| "read_loop (r # rs) s =
     (if r_ret r \<le> 0 then Inr (r, ssl_effects r (emit SslRead (s\<lparr>ssl_script := rs\<rparr>)))
      else if \<not> ssl (deliver r (ssl_effects r (emit SslRead (s\<lparr>ssl_script := rs\<rparr>))))
      then Inl (deliver r (ssl_effects r (emit SslRead (s\<lparr>ssl_script := rs\<rparr>))))
      else read_loop rs (deliver r (ssl_effects r (emit SslRead (s\<lparr>ssl_script := rs\<rparr>)))))"

text \<open>\<open>ClearOut\<close> after the loop: the end of file, then the error.\<close>

definition ClearOut_eof :: "TLSWrap \<Rightarrow> TLSWrap" where
  "ClearOut_eof s =
     (if \<not> eof s \<and> received_shutdown s
      then emit (EmitReadStatus UV_EOF) (s\<lparr>eof := True\<rparr>) else s)"

definition ClearOut_onerror :: "ssl_arg \<Rightarrow> TLSWrap \<Rightarrow> TLSWrap option" where
  "ClearOut_onerror arg s =
     map_option (emit (OnError arg)) (if enc_out s \<noteq> [] then EncOut s else Some s)"

definition ClearOut_error :: "ssl_resp \<Rightarrow> TLSWrap \<Rightarrow> TLSWrap option" where
  "ClearOut_error r s =
     (if r_ret r \<le> 0 then
        (case GetSSLError r s of
           None \<Rightarrow> None
         | Some arg \<Rightarrow>
             if r_err r = SSL_ERROR_ZERO_RETURN \<and> eof s then Some s
             else if arg \<noteq> NoValue then ClearOut_onerror arg s
             else Some s)
      else Some s)"

definition ClearOut :: "TLSWrap \<Rightarrow> TLSWrap option" where
  "ClearOut s =
     (if \<not> hello_ended s then Some s
      else if eof s then Some s
      else if \<not> ssl s then Some s
      else case read_loop (ssl_script s) s of
             Inl s' \<Rightarrow> Some s'
           | Inr (r, s1) \<Rightarrow> ClearOut_error r (ClearOut_eof s1))"

text \<open>\<open>ClearIn\<close>: what follows \<open>SSL_write\<close>, then the function.\<close>

definition ClearIn_written :: "bytes \<Rightarrow> ssl_resp \<times> TLSWrap \<Rightarrow> TLSWrap option" where
  "ClearIn_written data rs =
     (case rs of (r, s) \<Rightarrow>
        if \<not> (r_ret r = - 1 \<or> r_ret r = int (length data)) then None
        else if r_ret r \<noteq> - 1 then Some s
        else case GetSSLError r s of
               None \<Rightarrow> None
             | Some arg \<Rightarrow>
                 if arg \<noteq> NoValue
                 then Some (InvokeQueued UV_EPROTO (Some (error_text arg []))
                              (s\<lparr>write_callback_scheduled := True\<rparr>))
                 else Some (s\<lparr>pending_cleartext_input := data\<rparr>))"

definition ClearIn :: "TLSWrap \<Rightarrow> TLSWrap option" where
  "ClearIn s =
     (if \<not> hello_ended s then Some s
      else if \<not> ssl s then Some s
      else if pending_cleartext_input s = [] then Some s
      else ClearIn_written (pending_cleartext_input s)
             (ssl_call (SslWrite (pending_cleartext_input s))
                (s\<lparr>pending_cleartext_input := []\<rparr>)))"

text \<open>
  Modelled from the spec: \<open>Cycle\<close> is defined in \<open>tls_wrap.h\<close>, which is not among the
  sources. The specification has it perform, in order, the draining of the pending
  cleartext write, \<open>clear_out\<close> and \<open>enc_out\<close>.
\<close>

definition Cycle :: "TLSWrap \<Rightarrow> TLSWrap option" where
  "Cycle s = Option.bind (Option.bind (ClearIn s) ClearOut) EncOut"

definition NewSessionDoneCb :: "TLSWrap \<Rightarrow> TLSWrap option" where
  "NewSessionDoneCb s = Cycle s"

definition OnClientHelloParseEnd :: "TLSWrap \<Rightarrow> TLSWrap option" where
  "OnClientHelloParseEnd s = Cycle s"

text \<open>\<open>OnStreamAfterWrite\<close>: the commit, the error, the body, the function.\<close>

definition OnStreamAfterWrite_commit :: "TLSWrap \<Rightarrow> TLSWrap option" where
  "OnStreamAfterWrite_commit s =
     Option.bind
       (ClearIn (emit (BioRead (write_size s)) (s\<lparr>enc_out := drop (write_size s) (enc_out s)\<rparr>)))
       (\<lambda>s2. EncOut (s2\<lparr>write_size := 0\<rparr>))"

definition OnStreamAfterWrite_status :: "int \<Rightarrow> TLSWrap \<Rightarrow> TLSWrap option" where
  "OnStreamAfterWrite_status status s =
     (if status \<noteq> 0 then
        (if shutdown s then Some s else Some (InvokeQueued status None s))
      else OnStreamAfterWrite_commit s)"

definition OnStreamAfterWrite_entered :: "int \<Rightarrow> TLSWrap \<Rightarrow> TLSWrap option" where
  "OnStreamAfterWrite_entered status s =
     (case current_empty_write s of
        Some finishing \<Rightarrow>
          Some (emit (Done finishing status None) (s\<lparr>current_empty_write := None\<rparr>))
      | None \<Rightarrow>
          OnStreamAfterWrite_status (if \<not> ssl s then UV_ECANCELED else status) s)"

definition OnStreamAfterWrite :: "int \<Rightarrow> TLSWrap \<Rightarrow> TLSWrap option" where
  "OnStreamAfterWrite status s = OnStreamAfterWrite_entered status (emit (AfterWrite status) s)"

text \<open>
  \<open>DoWrite\<close>; the result is the returned status and the new state. The payload is the
  list of the buffers' contents. \<open>static_cast<int>(length)\<close> is \<open>int length\<close>: payloads
  stay below \<open>2^31\<close> bytes. The blocks, from the last to the first: the final \<open>EncOut\<close>;
  what follows \<open>SSL_write\<close>; the write of a payload; the empty write on the underlying
  stream; the empty payload after its \<open>ClearOut\<close>.
\<close>

definition DoWrite_finish :: "TLSWrap \<Rightarrow> (int \<times> TLSWrap) option" where
  "DoWrite_finish s =
     Option.bind (EncOut (s\<lparr>in_dowrite := True\<rparr>)) (\<lambda>s'. Some (0, s'\<lparr>in_dowrite := False\<rparr>))"

definition DoWrite_written :: "bytes \<Rightarrow> ssl_resp \<times> TLSWrap \<Rightarrow> (int \<times> TLSWrap) option" where
  "DoWrite_written data rs =
     (case rs of (r, s) \<Rightarrow>
        if \<not> (r_ret r = - 1 \<or> r_ret r = int (length data)) then None
        else if r_ret r = - 1 then
          (case GetSSLError r s of
             None \<Rightarrow> None
           | Some arg \<Rightarrow>
               if arg \<noteq> NoValue
               then Some (UV_EPROTO, s\<lparr>error := error_text arg (error s), current_write := None\<rparr>)
               else if pending_cleartext_input s \<noteq> [] then None
               else DoWrite_finish (s\<lparr>pending_cleartext_input := data\<rparr>))
        else DoWrite_finish s)"

definition DoWrite_data :: "WriteWrap \<Rightarrow> bytes \<Rightarrow> TLSWrap \<Rightarrow> (int \<times> TLSWrap) option" where
  "DoWrite_data w data s =
     (case current_write s of
        Some _ \<Rightarrow> None
      | None \<Rightarrow> DoWrite_written data (ssl_call (SslWrite data) (s\<lparr>current_write := Some w\<rparr>)))"

definition DoWrite_empty_write :: "WriteWrap \<Rightarrow> stream_resp \<times> TLSWrap \<Rightarrow> TLSWrap" where
  "DoWrite_empty_write w qs =
     (case qs of (q, s) \<Rightarrow>
        if \<not> res_async q
        then SetImmediate ImmAfterWrite
               (emit (StreamWrite [] (res_err q) (res_async q)) (s\<lparr>current_empty_write := Some w\<rparr>))
        else emit (StreamWrite [] (res_err q) (res_async q)) (s\<lparr>current_empty_write := Some w\<rparr>))"

definition DoWrite_empty :: "WriteWrap \<Rightarrow> TLSWrap \<Rightarrow> (int \<times> TLSWrap) option" where
  "DoWrite_empty w s =
     (if enc_out s = [] then
        (case current_empty_write s of
           Some _ \<Rightarrow> None
         | None \<Rightarrow> Some (0, DoWrite_empty_write w (stream_next s)))
      else
        (case current_write s of
           Some _ \<Rightarrow> None
         | None \<Rightarrow> map_option (Pair 0) (EncOut (s\<lparr>current_write := Some w\<rparr>))))"

definition DoWrite :: "WriteWrap \<Rightarrow> bytes list \<Rightarrow> TLSWrap \<Rightarrow> (int \<times> TLSWrap) option" where
  "DoWrite w bufs s =
     (if \<not> ssl s then Some (UV_EPROTO, s\<lparr>error := ''Write after DestroySSL''\<rparr>)
      else if sum_list (map length bufs) = 0 then Option.bind (ClearOut s) (DoWrite_empty w)
      else DoWrite_data w (concat bufs) s)"

text \<open>
  Modelled from the spec: \<open>ClientHelloParser\<close> (\<open>node_crypto_clienthello\<close>) is not
  among the sources. What one \<open>Parse\<close> call finds is an input: the hello is still
  incomplete, it is complete (the parser hands it to \<open>OnClientHello\<close> and waits), or it
  is not a hello the parser accepts (the parser ends). \<open>End\<close> ends an active parser and
  runs the end callback, which \<open>EnableSessionCallbacks\<close> sets to
  \<open>OnClientHelloParseEnd\<close>; once ended the parser stays ended.
\<close>

datatype parse_outcome = ParseWaiting | ParseHello | ParseEnd

definition hello_parser_End :: "TLSWrap \<Rightarrow> TLSWrap option" where
  "hello_parser_End s =
     (if hello_ended s then Some s else OnClientHelloParseEnd (s\<lparr>hello_ended := True\<rparr>))"

definition hello_parser_Parse :: "parse_outcome \<Rightarrow> bytes \<Rightarrow> TLSWrap \<Rightarrow> TLSWrap option" where
  "hello_parser_Parse po data s =
     (case po of
        ParseWaiting \<Rightarrow> Some (emit (HelloParse data) s)
      | ParseHello \<Rightarrow> Some (emit OnClientHello (emit (HelloParse data) s))
      | ParseEnd \<Rightarrow> hello_parser_End (emit (HelloParse data) s))"

text \<open>\<open>OnStreamRead(nread, buf)\<close>: for \<open>nread \<ge> 0\<close> the stream has stored the first
  \<open>nread\<close> bytes of \<open>buf\<close> in the region \<open>OnStreamAlloc\<close> handed out of \<open>enc_in_\<close>.
  The blocks: a negative \<open>nread\<close> after its \<open>ClearOut\<close>; the data after \<open>Commit\<close>.\<close>

definition OnStreamRead_status :: "int \<Rightarrow> TLSWrap \<Rightarrow> TLSWrap" where
  "OnStreamRead_status nread s =
     (if nread = UV_EOF then
        (if eof s then s else emit (EmitReadStatus nread) (s\<lparr>eof := True\<rparr>))
      else emit (EmitReadStatus nread) s)"

definition OnStreamRead_committed :: "parse_outcome \<Rightarrow> TLSWrap \<Rightarrow> TLSWrap option" where
  "OnStreamRead_committed po s =
     (if \<not> hello_ended s then hello_parser_Parse po (enc_in s) s else Cycle s)"

definition OnStreamRead :: "int \<Rightarrow> bytes \<Rightarrow> parse_outcome \<Rightarrow> TLSWrap \<Rightarrow> TLSWrap option" where
  "OnStreamRead nread buf po s =
     (if nread < 0 then map_option (OnStreamRead_status nread) (ClearOut s)
      else if \<not> ssl s then None
      else OnStreamRead_committed po (s\<lparr>enc_in := enc_in s @ take (nat nread) buf\<rparr>))"

definition DoShutdown_close :: "TLSWrap \<Rightarrow> TLSWrap" where
  "DoShutdown_close s =
     (if ssl s then
        (if r_ret (fst (ssl_call SslShutdown s)) = 0
         then snd (ssl_call SslShutdown (snd (ssl_call SslShutdown s)))
         else snd (ssl_call SslShutdown s))
      else s)"

definition DoShutdown :: "TLSWrap \<Rightarrow> TLSWrap option" where
  "DoShutdown s =
     map_option (emit StreamShutdown) (EncOut ((DoShutdown_close s)\<lparr>shutdown := True\<rparr>))"

definition Start :: "TLSWrap \<Rightarrow> TLSWrap option" where
  "Start s =
     (if started s then None
      else if \<not> is_client s then None
      else Option.bind (ClearOut (s\<lparr>started := True\<rparr>)) EncOut)"

definition EnableSessionCallbacks :: "TLSWrap \<Rightarrow> TLSWrap option" where
  "EnableSessionCallbacks s =
     (if \<not> ssl s then None
      else if is_client s then Some (s\<lparr>session_callbacks := True\<rparr>)
      else Some (s\<lparr>session_callbacks := True, hello_ended := False\<rparr>))"

definition EnableCertCb :: "TLSWrap \<Rightarrow> TLSWrap" where
  "EnableCertCb s = WaitForCertCb s"

definition EndParser :: "TLSWrap \<Rightarrow> TLSWrap option" where
  "EndParser s = hello_parser_End s"

definition NewSessionDone :: "TLSWrap \<Rightarrow> TLSWrap option" where
  "NewSessionDone s = NewSessionDoneCb (s\<lparr>awaiting_new_session := False\<rparr>)"

text \<open>
  \<open>CertCbDone\<close>. The \<open>sni_context\<close> property of the wrapper object is not an object, is
  a \<open>SecureContext\<close> (with whether the engine accepted its certificate, key and chain),
  or is some other object.
\<close>

datatype sni_context = CtxNotObject | CtxSecureContext bool | CtxOtherObject

definition CertCbDone_fire :: "TLSWrap \<Rightarrow> TLSWrap option" where
  "CertCbDone_fire s =
     OnClientHelloParseEnd (emit CertCbContinue (s\<lparr>cert_cb_running := False, cert_cb := False\<rparr>))"

definition CertCbDone :: "sni_context \<Rightarrow> TLSWrap \<Rightarrow> TLSWrap option" where
  "CertCbDone ctx s =
     (if \<not> (is_waiting_cert_cb s \<and> cert_cb_running s) then None
      else case ctx of
             CtxNotObject \<Rightarrow> CertCbDone_fire s
           | CtxSecureContext installed \<Rightarrow>
               if installed then CertCbDone_fire s else Some (emit ThrowError s)
           | CtxOtherObject \<Rightarrow> Some (emit OnTypeError s))"

subsection \<open>Runs of a connection\<close>

text \<open>
  What reaches a connection from outside: the JavaScript methods, the plaintext writes
  of \<open>StreamBase\<close>, the reads and write completions of the underlying stream, and the
  event loop running the next \<open>SetImmediate\<close> closure.
\<close>

datatype input =
    InStart
  | InStreamRead int bytes parse_outcome
  | InAfterWrite int
  | InImmediate
  | InDoWrite WriteWrap "bytes list"
  | InDoShutdown
  | InDestroySSL
  | InEnableSessionCallbacks
  | InEnableCertCb
  | InCertCbDone sni_context
  | InNewSessionDone
  | InEndParser

definition run_immediate :: "TLSWrap \<Rightarrow> TLSWrap option" where
  "run_immediate s =
     (case immediates s of
        [] \<Rightarrow> Some s
      | ImmInvokeQueued # rest \<Rightarrow> Some (InvokeQueued 0 None (s\<lparr>immediates := rest\<rparr>))
      | ImmAfterWrite # rest \<Rightarrow> OnStreamAfterWrite 0 (s\<lparr>immediates := rest\<rparr>))"

fun step :: "input \<Rightarrow> TLSWrap \<Rightarrow> TLSWrap option" where
  "step InStart s = Start s"
| "step (InStreamRead nread buf po) s = OnStreamRead nread buf po s"
| "step (InAfterWrite status) s = OnStreamAfterWrite status s"
| "step InImmediate s = run_immediate s"
| "step (InDoWrite w bufs) s = map_option snd (DoWrite w bufs s)"
| "step InDoShutdown s = DoShutdown s"
| "step InDestroySSL s = Some (DestroySSL s)"
| "step InEnableSessionCallbacks s = EnableSessionCallbacks s"
| "step InEnableCertCb s = Some (EnableCertCb s)"
| "step (InCertCbDone ctx) s = CertCbDone ctx s"
| "step InNewSessionDone s = NewSessionDone s"
| "step InEndParser s = EndParser s"

fun run :: "input list \<Rightarrow> TLSWrap \<Rightarrow> TLSWrap option" where
  "run [] s = Some s"
| "run (i # ins) s = Option.bind (step i s) (run ins)"

section \<open>Properties of states and traces\<close>



text \<open>The payloads handed to \<open>SSL_write\<close>, in order.\<close>

fun ssl_writes :: "event list \<Rightarrow> bytes list" where
  "ssl_writes [] = []"
| "ssl_writes (SslWrite d # es) = d # ssl_writes es"
| "ssl_writes (e # es) = ssl_writes es"

text \<open>Calls of the session engine.\<close>

fun engine_call :: "event \<Rightarrow> bool" where
  "engine_call SslRead = True"
| "engine_call (SslWrite d) = True"
| "engine_call SslShutdown = True"
| "engine_call e = False"

text \<open>The end of file and the plaintext, as the consumer sees them.\<close>

fun is_eof :: "event \<Rightarrow> bool" where
  "is_eof (EmitReadStatus n) = (n = UV_EOF)"
| "is_eof e = False"

fun is_read :: "event \<Rightarrow> bool" where
  "is_read (EmitRead d) = True"
| "is_read e = False"

text \<open>A trace delivers the end of file at most once, and no plaintext after it.\<close>

fun eof_once :: "event list \<Rightarrow> bool" where
  "eof_once [] = True"
| "eof_once (e # es) =
     (if is_eof e then list_all (\<lambda>x. \<not> is_eof x \<and> \<not> is_read x) es else eof_once es)"


fun cipher_write :: "event \<Rightarrow> bool" where
  "cipher_write (StreamWrite d e a) = (d \<noteq> [] \<and> e = 0)"
| "cipher_write e = False"


fun commit :: "event \<Rightarrow> bool" where
  "commit (BioRead n) = True"
| "commit e = False"


text \<open>
  The ciphertext writes in flight: accepted by the stream and not committed. The
  connection commits a ciphertext write (advances \<open>enc_out_\<close>) when the stream reports
  its completion with status 0; a write whose completion fails stays counted.
\<close>

definition cipher_in_flight :: "event list \<Rightarrow> int" where
  "cipher_in_flight tr = int (length (filter cipher_write tr)) - int (length (filter commit tr))"

text \<open>
  The certificate decisions in flight: the application callback \<open>oncertcb\<close> was
  invoked and the continuation has not been called since.
\<close>

fun cert_asked :: "event \<Rightarrow> bool" where
  "cert_asked OnCertCb = True"
| "cert_asked e = False"

fun cert_continued :: "event \<Rightarrow> bool" where
  "cert_continued CertCbContinue = True"
| "cert_continued e = False"

definition cert_decisions_in_flight :: "event list \<Rightarrow> int" where
  "cert_decisions_in_flight tr =
     int (length (filter cert_asked tr)) - int (length (filter cert_continued tr))"

text \<open>The invariants of a connection, for a kind \<open>K\<close> and a bound \<open>k\<close> on the ciphertext
  writes in flight.\<close>

definition gate_inv :: "TLSWrap \<Rightarrow> bool" where
  "gate_inv s =
     ((cert_cb_running s \<longrightarrow> is_server s \<and> is_waiting_cert_cb s) \<and>
      (awaiting_new_session s \<longrightarrow> is_server s) \<and>
      cert_decisions_in_flight (events s) = (if cert_cb_running s then 1 else 0))"

definition eof_inv :: "TLSWrap \<Rightarrow> bool" where
  "eof_inv s = (eof_once (events s) \<and> list_ex is_eof (events s) = eof s)"

definition base_inv :: "Kind \<Rightarrow> int \<Rightarrow> TLSWrap \<Rightarrow> bool" where
  "base_inv K k s = (kind s = K \<and> gate_inv s \<and> eof_inv s \<and> cipher_in_flight (events s) \<le> k)"

definition conn_inv :: "Kind \<Rightarrow> TLSWrap \<Rightarrow> bool" where
  "conn_inv K s = base_inv K (if write_size s = 0 then 0 else 1) s"

text \<open>The state a run of the read loop ends in.\<close>

fun loop_state :: "TLSWrap + (ssl_resp \<times> TLSWrap) \<Rightarrow> TLSWrap" where
  "loop_state (Inl s) = s"
| "loop_state (Inr (r, s)) = s"

text \<open>
  A step is quiet when it leaves \<open>write_size\<close> alone and keeps every invariant, for
  every kind and bound.
\<close>

definition quiet :: "TLSWrap \<Rightarrow> TLSWrap \<Rightarrow> bool" where
  "quiet s s' = (write_size s' = write_size s \<and> (\<forall>K k. base_inv K k s \<longrightarrow> base_inv K k s'))"

text \<open>
  What a step holds: a non-zero \<open>write_size\<close> and a set new-session flag.
\<close>

definition held :: "TLSWrap \<Rightarrow> TLSWrap \<Rightarrow> bool" where
  "held s s' =
     ((write_size s \<noteq> 0 \<longrightarrow> write_size s' = write_size s) \<and>
      (awaiting_new_session s \<longrightarrow> awaiting_new_session s'))"

text \<open>A step keeps the pending cleartext input, the payloads the engine has been given
  and the engine itself.\<close>

definition payload_kept :: "TLSWrap \<Rightarrow> TLSWrap \<Rightarrow> bool" where
  "payload_kept s s' =
     (pending_cleartext_input s' = pending_cleartext_input s \<and>
      ssl_writes (events s') = ssl_writes (events s) \<and> ssl s' = ssl s)"



section \<open>Example answers of the engine\<close>

text \<open>The engine runs the certificate callback and suspends on the lookup.\<close>

definition cert_request :: ssl_resp where
  "cert_request = idle_resp\<lparr>r_cbs := [CertCb], r_err := SSL_ERROR_WANT_X509_LOOKUP\<rparr>"



text \<open>The engine returns the two bytes of plaintext "hi".\<close>

definition plaintext_hi :: ssl_resp where
  "plaintext_hi = idle_resp\<lparr>r_consumed := 1, r_ret := 2, r_plain := [104, 105],
     r_err := SSL_ERROR_NONE\<rparr>"

text \<open>The engine has received the peer's close-notify.\<close>

definition close_notify :: ssl_resp where
  "close_notify = idle_resp\<lparr>r_ret := 0, r_err := SSL_ERROR_ZERO_RETURN, r_recv_shutdown := True\<rparr>"


section \<open>Session tickets: a key name mismatch is not an error\<close>

text \<open>
  C5. For every decrypt request (\<open>enc = 0\<close>) whose presented key name differs from the
  active key name, \<open>TicketCompatibilityCallback\<close> returns 0 (discard the ticket and fall
  back to a full handshake), whatever the cryptographic library would answer, and leaves
  the \<open>name\<close> and \<open>iv\<close> buffers as they are.
\<close>

theorem ticket_name_mismatch_discards:
  assumes "enc = 0"
    and "memcmp_differs name (ticket_key_name sc) 16"
  shows "TicketCompatibilityCallback sc lib name iv enc =
           \<lparr>ticket_ret = 0, ticket_name = name, ticket_iv = iv\<rparr>"
  using assms by (simp add: TicketCompatibilityCallback_def)

theorem ticket_name_mismatch_discards_witness:
  "TicketCompatibilityCallback
     \<lparr>ticket_key_name = replicate 16 1, ticket_key_hmac = replicate 16 2,
      ticket_key_aes = replicate 16 3\<rparr>
     \<lparr>RAND_bytes_ret = 1, RAND_bytes_out = replicate 16 0, EVP_EncryptInit_ret = 1,
      EVP_DecryptInit_ret = 1, HMAC_Init_ret = 1\<rparr>
     (replicate 16 7) (replicate 16 9) 0 =
   \<lparr>ticket_ret = 0, ticket_name = replicate 16 7, ticket_iv = replicate 16 9\<rparr>"
  by (rule ticket_name_mismatch_discards) (simp_all add: memcmp_differs_def)

section \<open>Writing after the engine was destroyed\<close>

text \<open>
  C9. A plaintext write requested after the engine has been destroyed (\<open>ssl_\<close> is null)
  fails at once: \<open>DoWrite\<close> returns \<open>UV_EPROTO\<close> and sets the error text to
  "Write after DestroySSL". Nothing else in the connection changes: the request is not
  stored as the current write, no payload is retained, the engine and the stream are
  not called.
\<close>

theorem write_after_destroy_fails:
  assumes "\<not> ssl s"
  shows "DoWrite w bufs s = Some (UV_EPROTO, s\<lparr>error := ''Write after DestroySSL''\<rparr>)"
  using assms by (simp add: DoWrite_def)

theorem write_after_destroy_fails_witness:
  "\<not> ssl (DestroySSL (new_TLSWrap kClient [] [])) \<and>
   DoWrite 1 [[104, 105]] (DestroySSL (new_TLSWrap kClient [] [])) =
     Some (UV_EPROTO, (DestroySSL (new_TLSWrap kClient [] []))\<lparr>error := ''Write after DestroySSL''\<rparr>)"
proof -
  have h: "\<not> ssl (DestroySSL (new_TLSWrap kClient [] []))"
    by (simp add: DestroySSL_def DestroySSL_release_def SSLWrap_DestroySSL_def InvokeQueued_def new_TLSWrap_def)
  show ?thesis using h write_after_destroy_fails [OF h] by simp
qed

section \<open>ALPN selection\<close>

lemma select_next_proto_overlap:
  "set server \<inter> set client \<noteq> {} \<Longrightarrow>
   \<exists>pre p post. server = pre @ p # post \<and> set pre \<inter> set client = {} \<and> p \<in> set client \<and>
      SSL_select_next_proto server client = (OPENSSL_NPN_NEGOTIATED, p)"
proof (induction server)
  case Nil
  then show ?case by simp
next
  case (Cons a server)
  show ?case
  proof (cases "a \<in> set client")
    case True
    then have "a # server = [] @ a # server \<and> set [] \<inter> set client = {} \<and> a \<in> set client \<and>
      SSL_select_next_proto (a # server) client = (OPENSSL_NPN_NEGOTIATED, a)" by simp
    then show ?thesis by blast
  next
    case False
    with Cons.prems have "set server \<inter> set client \<noteq> {}" by auto
    from Cons.IH [OF this] obtain pre p post where
      h: "server = pre @ p # post" "set pre \<inter> set client = {}" "p \<in> set client"
         "SSL_select_next_proto server client = (OPENSSL_NPN_NEGOTIATED, p)" by blast
    with False have "a # server = (a # pre) @ p # post \<and> set (a # pre) \<inter> set client = {} \<and>
       p \<in> set client \<and> SSL_select_next_proto (a # server) client = (OPENSSL_NPN_NEGOTIATED, p)"
      by simp
    then show ?thesis by blast
  qed
qed

lemma select_next_proto_no_overlap:
  "set server \<inter> set client = {} \<Longrightarrow>
   fst (SSL_select_next_proto server client) = OPENSSL_NPN_NO_OVERLAP"
  by (induction server) auto

text \<open>
  C3, as amended. On the server, the selection is the first entry of the server's own
  list (\<open>alpn_protos\<close>, in the server's order) that the client advertised: every entry
  before it in the server's list is absent from the client's list. Without a common
  entry the callback returns \<open>SSL_TLSEXT_ERR_NOACK\<close>. It never returns the fatal alert
  status.
\<close>

theorem alpn_selects_in_server_order:
  "(set alpn_protos \<inter> set inp \<noteq> {} \<longrightarrow>
      (\<exists>pre p post. alpn_protos = pre @ p # post \<and> set pre \<inter> set inp = {} \<and> p \<in> set inp \<and>
         SelectALPNCallback alpn_protos inp = (SSL_TLSEXT_ERR_OK, p))) \<and>
   (set alpn_protos \<inter> set inp = {} \<longrightarrow>
      fst (SelectALPNCallback alpn_protos inp) = SSL_TLSEXT_ERR_NOACK) \<and>
   fst (SelectALPNCallback alpn_protos inp) \<noteq> SSL_TLSEXT_ERR_ALERT_FATAL"
proof (intro conjI impI)
  assume "set alpn_protos \<inter> set inp \<noteq> {}"
  from select_next_proto_overlap [OF this] obtain pre p post where
    h: "alpn_protos = pre @ p # post" "set pre \<inter> set inp = {}" "p \<in> set inp"
       "SSL_select_next_proto alpn_protos inp = (OPENSSL_NPN_NEGOTIATED, p)" by blast
  from h(4) have "SelectALPNCallback alpn_protos inp = (SSL_TLSEXT_ERR_OK, p)"
    by (simp add: SelectALPNCallback_def)
  with h(1,2,3) show
    "\<exists>pre p post. alpn_protos = pre @ p # post \<and> set pre \<inter> set inp = {} \<and> p \<in> set inp \<and>
         SelectALPNCallback alpn_protos inp = (SSL_TLSEXT_ERR_OK, p)"
    by blast
next
  assume "set alpn_protos \<inter> set inp = {}"
  from select_next_proto_no_overlap [OF this] show
    "fst (SelectALPNCallback alpn_protos inp) = SSL_TLSEXT_ERR_NOACK"
    by (auto simp: SelectALPNCallback_def OPENSSL_NPN_NO_OVERLAP_def OPENSSL_NPN_NEGOTIATED_def
        split: prod.splits)
next
  show "fst (SelectALPNCallback alpn_protos inp) \<noteq> SSL_TLSEXT_ERR_ALERT_FATAL"
    by (auto simp: SelectALPNCallback_def SSL_TLSEXT_ERR_ALERT_FATAL_def SSL_TLSEXT_ERR_OK_def
        SSL_TLSEXT_ERR_NOACK_def split: prod.splits)
qed

theorem alpn_selects_in_server_order_witness:
  "set [[104, 50], [104, 49]] \<inter> set [[104, 49], [104, 50 :: byte]] \<noteq> {} \<and>
   SelectALPNCallback [[104, 50], [104, 49]] [[104, 49], [104, 50]] = (SSL_TLSEXT_ERR_OK, [104, 50]) \<and>
   set [[104, 50]] \<inter> set [[104, 49 :: byte]] = {} \<and>
   fst (SelectALPNCallback [[104, 50]] [[104, 49]]) = SSL_TLSEXT_ERR_NOACK"
proof -
  have a: "set [[104, 50], [104, 49]] \<inter> set [[104, 49], [104, 50 :: byte]] \<noteq> {}" by simp
  have b: "set [[104, 50]] \<inter> set [[104, 49 :: byte]] = {}" by simp
  from alpn_selects_in_server_order [of "[[104, 50], [104, 49]]" "[[104, 49], [104, 50]]"] a
  obtain pre p post where
    h: "[[104, 50], [104, 49 :: byte]] = pre @ p # post" "set pre \<inter> set [[104, 49], [104, 50]] = {}"
       "SelectALPNCallback [[104, 50], [104, 49]] [[104, 49], [104, 50]] = (SSL_TLSEXT_ERR_OK, p)"
    by blast
  have "pre = []" using h(1,2) by (cases pre) auto
  with h(1) have "p = [104, 50]" by simp
  with h(3) a b alpn_selects_in_server_order [of "[[104, 50]]" "[[104, 49]]"]
  show ?thesis by simp
qed

text \<open>
  C3, as stated (the first common protocol in the client's order), fails: the server
  supports h2 then h1, the client prefers h1 then h2; the client's first common choice
  is h1, the callback selects h2.
\<close>

theorem alpn_client_order_counterexample:
  "first_in_client_order [[104, 50], [104, 49]] [[104, 49], [104, 50]] = Some [104, 49] \<and>
   SelectALPNCallback [[104, 50], [104, 49]] [[104, 49], [104, 50]] = (SSL_TLSEXT_ERR_OK, [104, 50])"
  by (simp add: first_in_client_order_def SelectALPNCallback_def OPENSSL_NPN_NEGOTIATED_def)

section \<open>The invariants hold in every run\<close>

subsection \<open>Traces\<close>

lemma list_ex_snoc: "list_ex P (xs @ [x]) = (list_ex P xs \<or> P x)"
  by (induction xs) auto

lemma eof_once_snoc:
  "eof_once (tr @ [e]) = (eof_once tr \<and> (is_eof e \<or> is_read e \<longrightarrow> \<not> list_ex is_eof tr))"
  by (induction tr) auto

lemma cipher_in_flight_snoc:
  "cipher_in_flight (tr @ [e]) =
     cipher_in_flight tr + (if cipher_write e then 1 else 0) - (if commit e then 1 else 0)"
  by (simp add: cipher_in_flight_def)

lemma cert_decisions_in_flight_snoc:
  "cert_decisions_in_flight (tr @ [e]) =
     cert_decisions_in_flight tr + (if cert_asked e then 1 else 0) - (if cert_continued e then 1 else 0)"
  by (simp add: cert_decisions_in_flight_def)

subsection \<open>The relation quiet\<close>

lemma quiet_refl [simp]: "quiet s s"
  by (simp add: quiet_def)

lemma quiet_trans: "quiet a b \<Longrightarrow> quiet b c \<Longrightarrow> quiet a c"
  by (simp add: quiet_def)

lemma quiet_conn_inv: "quiet s s' \<Longrightarrow> conn_inv K s \<Longrightarrow> conn_inv K s'"
  by (simp add: quiet_def conn_inv_def)

lemma quiet_base_inv: "quiet s s' \<Longrightarrow> base_inv K k s \<Longrightarrow> base_inv K k s'"
  by (simp add: quiet_def)

lemma quiet_write_size: "quiet s s' \<Longrightarrow> write_size s' = write_size s"
  by (simp add: quiet_def)

lemma quiet_emit:
  "\<not> is_eof e \<Longrightarrow> \<not> is_read e \<Longrightarrow> \<not> cipher_write e \<Longrightarrow> \<not> commit e \<Longrightarrow>
   \<not> cert_asked e \<Longrightarrow> \<not> cert_continued e \<Longrightarrow> quiet s (emit e s)"
  by (simp add: quiet_def base_inv_def gate_inv_def eof_inv_def emit_def is_server_def
      is_waiting_cert_cb_def eof_once_snoc list_ex_snoc cipher_in_flight_snoc
      cert_decisions_in_flight_snoc)

lemma quietI:
  assumes "write_size s' = write_size s" "kind s' = kind s" "cert_cb s' = cert_cb s"
    "cert_cb_running s' = cert_cb_running s" "awaiting_new_session s' = awaiting_new_session s"
    "eof s' = eof s" "events s' = events s"
  shows "quiet s s'"
  using assms
  by (simp add: quiet_def base_inv_def gate_inv_def eof_inv_def is_server_def is_waiting_cert_cb_def)

lemma quiet_upd [simp]:
  "quiet s t \<Longrightarrow> quiet s (t\<lparr>ssl := a1\<rparr>)"
  "quiet s t \<Longrightarrow> quiet s (t\<lparr>session_callbacks := a2\<rparr>)"
  "quiet s t \<Longrightarrow> quiet s (t\<lparr>hello_ended := a3\<rparr>)"
  "quiet s t \<Longrightarrow> quiet s (t\<lparr>enc_in := a4\<rparr>)"
  "quiet s t \<Longrightarrow> quiet s (t\<lparr>enc_out := a5\<rparr>)"
  "quiet s t \<Longrightarrow> quiet s (t\<lparr>received_shutdown := a6\<rparr>)"
  "quiet s t \<Longrightarrow> quiet s (t\<lparr>stream := a7\<rparr>)"
  "quiet s t \<Longrightarrow> quiet s (t\<lparr>started := a8\<rparr>)"
  "quiet s t \<Longrightarrow> quiet s (t\<lparr>established := a9\<rparr>)"
  "quiet s t \<Longrightarrow> quiet s (t\<lparr>shutdown := a10\<rparr>)"
  "quiet s t \<Longrightarrow> quiet s (t\<lparr>in_dowrite := a11\<rparr>)"
  "quiet s t \<Longrightarrow> quiet s (t\<lparr>write_callback_scheduled := a12\<rparr>)"
  "quiet s t \<Longrightarrow> quiet s (t\<lparr>current_write := a13\<rparr>)"
  "quiet s t \<Longrightarrow> quiet s (t\<lparr>current_empty_write := a14\<rparr>)"
  "quiet s t \<Longrightarrow> quiet s (t\<lparr>pending_cleartext_input := a15\<rparr>)"
  "quiet s t \<Longrightarrow> quiet s (t\<lparr>error := a16\<rparr>)"
  "quiet s t \<Longrightarrow> quiet s (t\<lparr>immediates := a17\<rparr>)"
  "quiet s t \<Longrightarrow> quiet s (t\<lparr>ssl_script := a18\<rparr>)"
  "quiet s t \<Longrightarrow> quiet s (t\<lparr>stream_script := a19\<rparr>)"
  by (erule quiet_trans, rule quietI, simp_all)+

lemma quiet_emit_ext [simp]:
  "quiet s t \<Longrightarrow> \<not> is_eof e \<Longrightarrow> \<not> is_read e \<Longrightarrow> \<not> cipher_write e \<Longrightarrow> \<not> commit e \<Longrightarrow>
   \<not> cert_asked e \<Longrightarrow> \<not> cert_continued e \<Longrightarrow> quiet s (emit e t)"
  by (erule quiet_trans) (rule quiet_emit)

lemma quiet_SetImmediate [simp]: "quiet s t \<Longrightarrow> quiet s (SetImmediate c t)"
  by (simp add: SetImmediate_def)

lemma quiet_engine_io [simp]: "quiet s t \<Longrightarrow> quiet s (engine_io r t)"
  by (simp add: engine_io_def)

lemma quiet_InvokeQueued [simp]: "quiet s t \<Longrightarrow> quiet s (InvokeQueued st msg t)"
  by (simp add: InvokeQueued_def split: option.splits)

lemma quiet_stream_next [simp]: "quiet s t \<Longrightarrow> quiet s (snd (stream_next t))"
  by (simp add: stream_next_def split: list.splits)

lemma quiet_DestroySSL [simp]: "quiet s t \<Longrightarrow> quiet s (DestroySSL t)"
  by (simp add: DestroySSL_def DestroySSL_release_def SSLWrap_DestroySSL_def)

lemma quiet_EncOut_written [simp]: "quiet s t \<Longrightarrow> quiet s (EncOut_written q t)"
  by (simp add: EncOut_written_def)

lemma quiet_EncOut_no_output [simp]: "quiet s t \<Longrightarrow> quiet s (EncOut_no_output t)"
  by (simp add: EncOut_no_output_def)

lemma quiet_EncOut_split_off [simp]: "quiet s t \<Longrightarrow> quiet s (EncOut_split_off t)"
  by (simp add: EncOut_split_off_def)

lemma quiet_DoWrite_empty_write [simp]: "quiet s t \<Longrightarrow> quiet s (DoWrite_empty_write w (stream_next t))"
  by (cases "stream_next t") (use quiet_stream_next [of s t] in \<open>simp add: DoWrite_empty_write_def\<close>)

text \<open>The callbacks of the engine change the fields of the certificate gate and of the
  new-session hold; they keep the invariants.\<close>

lemma quiet_gate:
  assumes "quiet s t" "write_size t' = write_size t" "kind t' = kind t"
    "eof_inv t \<Longrightarrow> eof_inv t'" "cipher_in_flight (events t') = cipher_in_flight (events t)"
    "gate_inv t \<Longrightarrow> gate_inv t'"
  shows "quiet s t'"
  unfolding quiet_def base_inv_def
proof (intro conjI allI impI)
  show "write_size t' = write_size s" using assms(1,2) by (simp add: quiet_def)
next
  fix K k assume h: "kind s = K \<and> gate_inv s \<and> eof_inv s \<and> cipher_in_flight (events s) \<le> k"
  then have "base_inv K k s" by (simp add: base_inv_def)
  then have b: "base_inv K k t" by (rule quiet_base_inv [OF assms(1)])
  show "kind t' = K" using b assms(3) by (simp add: base_inv_def)
  show "gate_inv t'" using b assms(6) by (simp add: base_inv_def)
  show "eof_inv t'" using b assms(4) by (simp add: base_inv_def)
  show "cipher_in_flight (events t') \<le> k" using b assms(5) by (simp add: base_inv_def)
qed

lemma quiet_run_cb [simp]: "quiet s t \<Longrightarrow> quiet s (run_cb c t)"
proof (cases c)
  case (InfoCb a b d)
  then show "quiet s t \<Longrightarrow> quiet s (run_cb c t)"
    by (simp add: SSLInfoCallback_def SSLInfoCallback_done_def)
next
  case (NewSessionCb sz)
  assume q: "quiet s t"
  have "quiet s (emit OnNewSession (t\<lparr>awaiting_new_session := True\<rparr>))" if "is_server t"
    using that
    by (intro quiet_gate [OF q])
       (simp_all add: emit_def eof_inv_def eof_once_snoc list_ex_snoc cipher_in_flight_snoc
          cert_decisions_in_flight_snoc gate_inv_def is_server_def is_waiting_cert_cb_def)
  with q NewSessionCb show ?thesis by (simp add: NewSessionCallback_def)
next
  case CertCb
  assume q: "quiet s t"
  have "quiet s (emit OnCertCb (t\<lparr>cert_cb_running := True\<rparr>))"
    if "is_server t" "is_waiting_cert_cb t" "\<not> cert_cb_running t"
    using that
    by (intro quiet_gate [OF q])
       (simp_all add: emit_def eof_inv_def eof_once_snoc list_ex_snoc cipher_in_flight_snoc
          cert_decisions_in_flight_snoc gate_inv_def is_server_def is_waiting_cert_cb_def)
  with q CertCb show ?thesis by (simp add: SSLCertCallback_def SSLCertCallback_called_def)
qed

lemma quiet_run_cbs [simp]: "quiet s t \<Longrightarrow> quiet s (run_cbs cs t)"
  by (induction cs arbitrary: t) simp_all

lemma quiet_ssl_effects [simp]: "quiet s t \<Longrightarrow> quiet s (ssl_effects r t)"
  by (simp add: ssl_effects_def)

lemma quiet_ssl_call [simp]:
  "quiet s t \<Longrightarrow> engine_call e \<Longrightarrow> quiet s (snd (ssl_call e t))"
  by (cases e) (simp_all add: ssl_call_def split: list.splits)

lemma quiet_ClearIn_written:
  "quiet s t \<Longrightarrow> ClearIn_written data (r, t) = Some s' \<Longrightarrow> quiet s s'"
  by (auto simp: ClearIn_written_def split: if_splits option.splits)

lemma quiet_ClearIn: "quiet s t \<Longrightarrow> ClearIn t = Some s' \<Longrightarrow> quiet s s'"
  using quiet_ClearIn_written [of s "snd (ssl_call (SslWrite (pending_cleartext_input t))
                (t\<lparr>pending_cleartext_input := []\<rparr>))" "pending_cleartext_input t"
                "fst (ssl_call (SslWrite (pending_cleartext_input t))
                (t\<lparr>pending_cleartext_input := []\<rparr>))" s']
  by (auto simp: ClearIn_def split: if_splits)


lemma conn_inv_quiet_leaf [simp]:
  "conn_inv K s \<Longrightarrow> \<not> is_eof e \<Longrightarrow> \<not> is_read e \<Longrightarrow> \<not> cipher_write e \<Longrightarrow> \<not> commit e \<Longrightarrow>
   \<not> cert_asked e \<Longrightarrow> \<not> cert_continued e \<Longrightarrow> conn_inv K (emit e s)"
  "conn_inv K s \<Longrightarrow> conn_inv K (InvokeQueued st msg s)"
  "conn_inv K s \<Longrightarrow> conn_inv K (DestroySSL s)"
  "conn_inv K s \<Longrightarrow> engine_call e \<Longrightarrow> conn_inv K (snd (ssl_call e s))"
  "conn_inv K s \<Longrightarrow> conn_inv K (DoWrite_empty_write w (stream_next s))"
  by (erule quiet_conn_inv [rotated], simp)+

lemma conn_inv_upd [simp]:
  "conn_inv K (s\<lparr>ssl := a1\<rparr>) = conn_inv K s"
  "conn_inv K (s\<lparr>session_callbacks := a2\<rparr>) = conn_inv K s"
  "conn_inv K (s\<lparr>hello_ended := a3\<rparr>) = conn_inv K s"
  "conn_inv K (s\<lparr>enc_in := a4\<rparr>) = conn_inv K s"
  "conn_inv K (s\<lparr>enc_out := a5\<rparr>) = conn_inv K s"
  "conn_inv K (s\<lparr>received_shutdown := a6\<rparr>) = conn_inv K s"
  "conn_inv K (s\<lparr>stream := a7\<rparr>) = conn_inv K s"
  "conn_inv K (s\<lparr>started := a8\<rparr>) = conn_inv K s"
  "conn_inv K (s\<lparr>established := a9\<rparr>) = conn_inv K s"
  "conn_inv K (s\<lparr>shutdown := a10\<rparr>) = conn_inv K s"
  "conn_inv K (s\<lparr>in_dowrite := a11\<rparr>) = conn_inv K s"
  "conn_inv K (s\<lparr>write_callback_scheduled := a12\<rparr>) = conn_inv K s"
  "conn_inv K (s\<lparr>current_write := a13\<rparr>) = conn_inv K s"
  "conn_inv K (s\<lparr>current_empty_write := a14\<rparr>) = conn_inv K s"
  "conn_inv K (s\<lparr>pending_cleartext_input := a15\<rparr>) = conn_inv K s"
  "conn_inv K (s\<lparr>error := a16\<rparr>) = conn_inv K s"
  "conn_inv K (s\<lparr>immediates := a17\<rparr>) = conn_inv K s"
  "conn_inv K (s\<lparr>ssl_script := a18\<rparr>) = conn_inv K s"
  "conn_inv K (s\<lparr>stream_script := a19\<rparr>) = conn_inv K s"
  by (simp_all add: conn_inv_def base_inv_def eof_inv_def gate_inv_def is_server_def
      is_waiting_cert_cb_def)

subsection \<open>The end of file\<close>

lemma eof_leaf [simp]:
  "eof (emit e s) = eof s"
  "eof (engine_io r s) = eof s"
  "eof (InvokeQueued st msg s) = eof s"
  "eof (DestroySSL s) = eof s"
  by (simp_all add: emit_def engine_io_def InvokeQueued_def DestroySSL_def DestroySSL_release_def
      SSLWrap_DestroySSL_def split: option.splits)

lemma eof_run_cb [simp]: "eof (run_cb c s) = eof s"
  by (cases c)
     (simp_all add: SSLInfoCallback_def SSLInfoCallback_done_def NewSessionCallback_def
        SSLCertCallback_def SSLCertCallback_called_def)

lemma eof_run_cbs [simp]: "eof (run_cbs cs s) = eof s"
  by (induction cs arbitrary: s) simp_all

lemma eof_ssl_effects [simp]: "eof (ssl_effects r s) = eof s"
  by (simp add: ssl_effects_def)

lemma quiet_emit_read [simp]: "quiet s t \<Longrightarrow> \<not> eof t \<Longrightarrow> quiet s (emit (EmitRead d) t)"
  by (rule quiet_gate [of s t])
     (auto simp: emit_def eof_inv_def eof_once_snoc list_ex_snoc cipher_in_flight_snoc
        cert_decisions_in_flight_snoc gate_inv_def is_server_def is_waiting_cert_cb_def)

lemma quiet_emit_eof [simp]:
  "quiet s t \<Longrightarrow> \<not> eof t \<Longrightarrow> n = UV_EOF \<Longrightarrow>
   quiet s (emit (EmitReadStatus n) (t\<lparr>eof := True\<rparr>))"
  by (rule quiet_gate [of s t])
     (auto simp: emit_def eof_inv_def eof_once_snoc list_ex_snoc cipher_in_flight_snoc
        cert_decisions_in_flight_snoc gate_inv_def is_server_def is_waiting_cert_cb_def)

lemma quiet_emit_status [simp]:
  "quiet s t \<Longrightarrow> n \<noteq> UV_EOF \<Longrightarrow> quiet s (emit (EmitReadStatus n) t)"
  by simp

lemma quiet_deliver [simp]: "quiet s t \<Longrightarrow> \<not> eof t \<Longrightarrow> quiet s (deliver r t)"
  by (simp add: deliver_def)

lemma eof_deliver [simp]: "eof (deliver r s) = eof s"
  by (simp add: deliver_def)

lemma quiet_read_loop:
  "quiet s t \<Longrightarrow> \<not> eof t \<Longrightarrow>
   quiet s (loop_state (read_loop rs t)) \<and> \<not> eof (loop_state (read_loop rs t))"
  by (induction rs arbitrary: t) simp_all

lemma quiet_ClearOut_eof [simp]: "quiet s t \<Longrightarrow> quiet s (ClearOut_eof t)"
  by (simp add: ClearOut_eof_def)

lemma quiet_OnStreamRead_status [simp]: "quiet s t \<Longrightarrow> quiet s (OnStreamRead_status n t)"
  by (simp add: OnStreamRead_status_def)

subsection \<open>The invariant through \<open>EncOut\<close>\<close>

lemma conn_inv_cipher_write:
  assumes "conn_inv K s" "write_size s = 0" "n \<noteq> 0"
  shows "conn_inv K (emit (StreamWrite d e a) (s\<lparr>write_size := n\<rparr>))"
proof -
  from assms(1,2) have b: "base_inv K 0 s" by (simp add: conn_inv_def)
  have "base_inv K 1 (emit (StreamWrite d e a) (s\<lparr>write_size := n\<rparr>))"
    using b
    by (auto simp: base_inv_def emit_def eof_inv_def eof_once_snoc list_ex_snoc
        cipher_in_flight_snoc cert_decisions_in_flight_snoc gate_inv_def is_server_def is_waiting_cert_cb_def)
  with assms(3) show ?thesis by (simp add: conn_inv_def emit_def)
qed

lemma conn_inv_EncOut_write:
  assumes "conn_inv K s" "write_size s = 0" "EncOut_write (q, s) = Some s'"
  shows "conn_inv K s'"
proof -
  define n where "n = min (peek_size q) (length (enc_out s))"
  from assms(3) have n: "n \<noteq> 0"
    and s': "s' = EncOut_written q
               (emit (StreamWrite (take n (enc_out s)) (res_err q) (res_async q)) (s\<lparr>write_size := n\<rparr>))"
    unfolding n_def by (simp_all add: EncOut_write_def Let_def split: if_splits)
  have "conn_inv K (emit (StreamWrite (take n (enc_out s)) (res_err q) (res_async q)) (s\<lparr>write_size := n\<rparr>))"
    using assms(1,2) n by (rule conn_inv_cipher_write)
  then show ?thesis unfolding s' by (rule quiet_conn_inv [rotated]) simp
qed

lemma conn_inv_EncOut_flush:
  assumes "conn_inv K s" "write_size s = 0" "EncOut_flush s = Some s'"
  shows "conn_inv K s'"
proof (cases "\<not> ssl s \<or> enc_out s = []")
  case True
  with assms(3) have "quiet s s'" by (auto simp: EncOut_flush_def split: if_splits)
  then show ?thesis using assms(1) by (rule quiet_conn_inv)
next
  case False
  obtain q t where qt: "stream_next s = (q, t)" by (cases "stream_next s")
  with quiet_stream_next [of s s] have "quiet s t" by simp
  then have "conn_inv K t" "write_size t = 0"
    using assms(1,2) by (auto dest: quiet_conn_inv quiet_write_size)
  moreover from False assms(3) qt have "EncOut_write (q, t) = Some s'"
    by (simp add: EncOut_flush_def)
  ultimately show ?thesis by (rule conn_inv_EncOut_write)
qed

lemma conn_inv_EncOut: "conn_inv K s \<Longrightarrow> EncOut s = Some s' \<Longrightarrow> conn_inv K s'"
  using conn_inv_EncOut_flush [of K "EncOut_split_off s" s']
        quiet_conn_inv [of s "EncOut_split_off s" K]
        quiet_write_size [of s "EncOut_split_off s"]
  by (auto simp: EncOut_def split: if_splits)


lemma conn_inv_ClearOut_onerror:
  assumes "conn_inv K s" "ClearOut_onerror arg s = Some s'"
  shows "conn_inv K s'"
proof -
  from assms(2) obtain t where t: "(if enc_out s \<noteq> [] then EncOut s else Some s) = Some t"
    and s': "s' = emit (OnError arg) t"
    by (auto simp: ClearOut_onerror_def)
  from t assms(1) have "conn_inv K t"
    by (auto split: if_splits dest: conn_inv_EncOut)
  then show ?thesis unfolding s' by (rule quiet_conn_inv [rotated]) simp
qed

lemma conn_inv_ClearOut_error:
  "conn_inv K s \<Longrightarrow> ClearOut_error r s = Some s' \<Longrightarrow> conn_inv K s'"
  by (auto simp: ClearOut_error_def split: if_splits option.splits
      dest: conn_inv_ClearOut_onerror)

lemma conn_inv_ClearOut:
  assumes "conn_inv K s" "ClearOut s = Some s'"
  shows "conn_inv K s'"
proof (cases "\<not> hello_ended s \<or> eof s \<or> \<not> ssl s")
  case True
  with assms show ?thesis by (auto simp: ClearOut_def split: if_splits)
next
  case False
  then have q: "quiet s (loop_state (read_loop (ssl_script s) s))"
    using quiet_read_loop [of s s "ssl_script s"] by simp
  show ?thesis
  proof (cases "read_loop (ssl_script s) s")
    case (Inl t)
    with False assms(2) have "s' = t" by (simp add: ClearOut_def)
    with q Inl assms(1) show ?thesis by (auto dest: quiet_conn_inv)
  next
    case (Inr rt)
    obtain r t where rt: "rt = (r, t)" by (cases rt)
    with q Inr have "quiet s (ClearOut_eof t)" by simp
    then have "conn_inv K (ClearOut_eof t)" using assms(1) by (rule quiet_conn_inv)
    moreover from False assms(2) Inr rt have "ClearOut_error r (ClearOut_eof t) = Some s'"
      by (simp add: ClearOut_def)
    ultimately show ?thesis by (rule conn_inv_ClearOut_error)
  qed
qed

lemma conn_inv_ClearIn: "conn_inv K s \<Longrightarrow> ClearIn s = Some s' \<Longrightarrow> conn_inv K s'"
  using quiet_ClearIn [of s s s'] by (auto dest: quiet_conn_inv)

lemma conn_inv_Cycle:
  assumes "conn_inv K s" "Cycle s = Some s'"
  shows "conn_inv K s'"
proof -
  from assms(2) obtain a b where "ClearIn s = Some a" "ClearOut a = Some b" "EncOut b = Some s'"
    by (auto simp: Cycle_def bind_eq_Some_conv)
  with assms(1) show ?thesis
    by (blast intro: conn_inv_ClearIn conn_inv_ClearOut conn_inv_EncOut)
qed

lemma conn_inv_OnStreamAfterWrite_commit:
  assumes "conn_inv K s" "OnStreamAfterWrite_commit s = Some s'"
  shows "conn_inv K s'"
proof -
  let ?s1 = "emit (BioRead (write_size s)) (s\<lparr>enc_out := drop (write_size s) (enc_out s)\<rparr>)"
  from assms(2) obtain a where a: "ClearIn ?s1 = Some a" and e: "EncOut (a\<lparr>write_size := 0\<rparr>) = Some s'"
    by (auto simp: OnStreamAfterWrite_commit_def bind_eq_Some_conv)
  from assms(1) have "base_inv K 0 ?s1"
    by (auto simp: conn_inv_def base_inv_def emit_def eof_inv_def eof_once_snoc list_ex_snoc
        cipher_in_flight_snoc cert_decisions_in_flight_snoc gate_inv_def is_server_def is_waiting_cert_cb_def split: if_splits)
  moreover have "quiet ?s1 a" using quiet_ClearIn [OF quiet_refl a] .
  ultimately have "base_inv K 0 a" by (rule quiet_base_inv [rotated])
  then have "conn_inv K (a\<lparr>write_size := 0\<rparr>)"
    by (auto simp: conn_inv_def base_inv_def eof_inv_def gate_inv_def is_server_def is_waiting_cert_cb_def)
  then show ?thesis using e by (rule conn_inv_EncOut)
qed

lemma conn_inv_OnStreamAfterWrite_status:
  "conn_inv K s \<Longrightarrow> OnStreamAfterWrite_status st s = Some s' \<Longrightarrow> conn_inv K s'"
  by (auto simp: OnStreamAfterWrite_status_def split: if_splits
      dest: conn_inv_OnStreamAfterWrite_commit intro: quiet_conn_inv [rotated])

lemma conn_inv_OnStreamAfterWrite_entered:
  "conn_inv K s \<Longrightarrow> OnStreamAfterWrite_entered st s = Some s' \<Longrightarrow> conn_inv K s'"
  by (auto simp: OnStreamAfterWrite_entered_def split: option.splits
      dest: conn_inv_OnStreamAfterWrite_status intro: quiet_conn_inv [rotated])

lemma conn_inv_OnStreamAfterWrite:
  "conn_inv K s \<Longrightarrow> OnStreamAfterWrite st s = Some s' \<Longrightarrow> conn_inv K s'"
  unfolding OnStreamAfterWrite_def
  by (erule conn_inv_OnStreamAfterWrite_entered [rotated]) simp


subsection \<open>The invariant through the other operations\<close>

lemma conn_inv_DoWrite_finish:
  "conn_inv K s \<Longrightarrow> DoWrite_finish s = Some (st, s') \<Longrightarrow> conn_inv K s'"
  by (auto simp: DoWrite_finish_def bind_eq_Some_conv dest!: conn_inv_EncOut [rotated])

lemma conn_inv_DoWrite_written:
  "conn_inv K s \<Longrightarrow> DoWrite_written data (r, s) = Some (st, s') \<Longrightarrow> conn_inv K s'"
  by (auto simp: DoWrite_written_def split: if_splits option.splits
      dest!: conn_inv_DoWrite_finish [rotated])

lemma conn_inv_DoWrite_data:
  assumes "conn_inv K s" "DoWrite_data w data s = Some (st, s')"
  shows "conn_inv K s'"
proof -
  let ?c = "ssl_call (SslWrite data) (s\<lparr>current_write := Some w\<rparr>)"
  from assms(2) have "DoWrite_written data (fst ?c, snd ?c) = Some (st, s')"
    by (simp add: DoWrite_data_def split: option.splits)
  moreover from assms(1) have "conn_inv K (snd ?c)" by simp
  ultimately show ?thesis by (rule conn_inv_DoWrite_written [rotated])
qed

lemma conn_inv_DoWrite_empty:
  "conn_inv K s \<Longrightarrow> DoWrite_empty w s = Some (st, s') \<Longrightarrow> conn_inv K s'"
  by (auto simp: DoWrite_empty_def split: if_splits option.splits dest!: conn_inv_EncOut [rotated])

lemma conn_inv_DoWrite:
  "conn_inv K s \<Longrightarrow> DoWrite w bufs s = Some (st, s') \<Longrightarrow> conn_inv K s'"
  by (auto simp: DoWrite_def bind_eq_Some_conv split: if_splits
      dest: conn_inv_DoWrite_data conn_inv_DoWrite_empty conn_inv_ClearOut)

lemma conn_inv_hello_parser_End:
  "conn_inv K s \<Longrightarrow> hello_parser_End s = Some s' \<Longrightarrow> conn_inv K s'"
  by (auto simp: hello_parser_End_def OnClientHelloParseEnd_def split: if_splits
      dest!: conn_inv_Cycle [rotated])

lemma conn_inv_hello_parser_Parse:
  "conn_inv K s \<Longrightarrow> hello_parser_Parse po data s = Some s' \<Longrightarrow> conn_inv K s'"
  by (cases po) (auto simp: hello_parser_Parse_def dest!: conn_inv_hello_parser_End [rotated])

lemma conn_inv_OnStreamRead:
  assumes "conn_inv K s" "OnStreamRead nread buf po s = Some s'"
  shows "conn_inv K s'"
proof (cases "nread < 0")
  case True
  with assms(2) obtain t where t: "ClearOut s = Some t" and s': "s' = OnStreamRead_status nread t"
    by (auto simp: OnStreamRead_def)
  from assms(1) t have "conn_inv K t" by (rule conn_inv_ClearOut)
  then show ?thesis unfolding s' by (rule quiet_conn_inv [rotated]) simp
next
  case False
  with assms show ?thesis
    by (auto simp: OnStreamRead_def OnStreamRead_committed_def split: if_splits
        dest!: conn_inv_hello_parser_Parse [rotated] conn_inv_Cycle [rotated])
qed

lemma conn_inv_DoShutdown:
  assumes "conn_inv K s" "DoShutdown s = Some s'"
  shows "conn_inv K s'"
proof -
  have "conn_inv K (DoShutdown_close s)"
    using assms(1) by (simp add: DoShutdown_close_def)
  moreover from assms(2) obtain t where "EncOut ((DoShutdown_close s)\<lparr>shutdown := True\<rparr>) = Some t"
    and s': "s' = emit StreamShutdown t" by (auto simp: DoShutdown_def)
  ultimately have "conn_inv K t" by (auto dest!: conn_inv_EncOut [rotated])
  then show ?thesis unfolding s' by simp
qed

lemma conn_inv_Start: "conn_inv K s \<Longrightarrow> Start s = Some s' \<Longrightarrow> conn_inv K s'"
  by (auto simp: Start_def bind_eq_Some_conv split: if_splits
      dest!: conn_inv_ClearOut [rotated] conn_inv_EncOut [rotated])

lemma conn_inv_EnableSessionCallbacks:
  "conn_inv K s \<Longrightarrow> EnableSessionCallbacks s = Some s' \<Longrightarrow> conn_inv K s'"
  by (auto simp: EnableSessionCallbacks_def split: if_splits)

lemma conn_inv_EnableCertCb: "conn_inv K s \<Longrightarrow> conn_inv K (EnableCertCb s)"
  by (auto simp: EnableCertCb_def WaitForCertCb_def conn_inv_def base_inv_def eof_inv_def
      gate_inv_def is_server_def is_waiting_cert_cb_def)

lemma conn_inv_NewSessionDone:
  assumes "conn_inv K s" "NewSessionDone s = Some s'"
  shows "conn_inv K s'"
proof -
  from assms(1) have "conn_inv K (s\<lparr>awaiting_new_session := False\<rparr>)"
    by (auto simp: conn_inv_def base_inv_def eof_inv_def gate_inv_def is_server_def
        is_waiting_cert_cb_def)
  with assms(2) show ?thesis
    by (auto simp: NewSessionDone_def NewSessionDoneCb_def dest!: conn_inv_Cycle [rotated])
qed

lemma conn_inv_CertCbDone:
  assumes "conn_inv K s" "CertCbDone ctx s = Some s'"
  shows "conn_inv K s'"
proof -
  from assms(2) have r: "cert_cb_running s"
    by (auto simp: CertCbDone_def split: if_splits)
  with assms(1) have
    "conn_inv K (emit CertCbContinue (s\<lparr>cert_cb_running := False, cert_cb := False\<rparr>))"
    by (auto simp: conn_inv_def base_inv_def eof_inv_def gate_inv_def is_server_def
        is_waiting_cert_cb_def emit_def eof_once_snoc list_ex_snoc cipher_in_flight_snoc
        cert_decisions_in_flight_snoc)
  then have "CertCbDone_fire s = Some s' \<Longrightarrow> conn_inv K s'"
    by (auto simp: CertCbDone_fire_def OnClientHelloParseEnd_def dest!: conn_inv_Cycle [rotated])
  with assms show ?thesis
    by (cases ctx) (auto simp: CertCbDone_def split: if_splits)
qed

lemma conn_inv_run_immediate:
  "conn_inv K s \<Longrightarrow> run_immediate s = Some s' \<Longrightarrow> conn_inv K s'"
  by (auto simp: run_immediate_def split: list.splits immediate.splits
      dest!: conn_inv_OnStreamAfterWrite [rotated])

lemma conn_inv_step: "conn_inv K s \<Longrightarrow> step i s = Some s' \<Longrightarrow> conn_inv K s'"
  by (cases i)
     (auto dest: conn_inv_Start conn_inv_OnStreamRead conn_inv_OnStreamAfterWrite
        conn_inv_run_immediate conn_inv_DoWrite conn_inv_DoShutdown
        conn_inv_EnableSessionCallbacks conn_inv_EnableCertCb conn_inv_CertCbDone
        conn_inv_NewSessionDone conn_inv_hello_parser_End simp: EndParser_def)

lemma conn_inv_run: "conn_inv K s \<Longrightarrow> run ins s = Some s' \<Longrightarrow> conn_inv K s'"
  by (induction ins arbitrary: s) (auto simp: bind_eq_Some_conv dest: conn_inv_step)

lemma conn_inv_new: "conn_inv K (new_TLSWrap K engine transport)"
  by (simp add: conn_inv_def base_inv_def eof_inv_def gate_inv_def new_TLSWrap_def
      cipher_in_flight_def cert_decisions_in_flight_def)

section \<open>What only a completion or an acknowledgement may change\<close>


lemma heldI: "write_size t' = write_size t \<Longrightarrow> awaiting_new_session t' = awaiting_new_session t \<Longrightarrow>
  held s t \<Longrightarrow> held s t'"
  by (simp add: held_def)

lemma held_upd [simp]:
  "held s t \<Longrightarrow> held s (t\<lparr>ssl := a1\<rparr>)"
  "held s t \<Longrightarrow> held s (t\<lparr>session_callbacks := a2\<rparr>)"
  "held s t \<Longrightarrow> held s (t\<lparr>hello_ended := a3\<rparr>)"
  "held s t \<Longrightarrow> held s (t\<lparr>enc_in := a4\<rparr>)"
  "held s t \<Longrightarrow> held s (t\<lparr>enc_out := a5\<rparr>)"
  "held s t \<Longrightarrow> held s (t\<lparr>received_shutdown := a6\<rparr>)"
  "held s t \<Longrightarrow> held s (t\<lparr>stream := a7\<rparr>)"
  "held s t \<Longrightarrow> held s (t\<lparr>started := a8\<rparr>)"
  "held s t \<Longrightarrow> held s (t\<lparr>established := a9\<rparr>)"
  "held s t \<Longrightarrow> held s (t\<lparr>shutdown := a10\<rparr>)"
  "held s t \<Longrightarrow> held s (t\<lparr>in_dowrite := a11\<rparr>)"
  "held s t \<Longrightarrow> held s (t\<lparr>write_callback_scheduled := a12\<rparr>)"
  "held s t \<Longrightarrow> held s (t\<lparr>current_write := a13\<rparr>)"
  "held s t \<Longrightarrow> held s (t\<lparr>current_empty_write := a14\<rparr>)"
  "held s t \<Longrightarrow> held s (t\<lparr>pending_cleartext_input := a15\<rparr>)"
  "held s t \<Longrightarrow> held s (t\<lparr>error := a16\<rparr>)"
  "held s t \<Longrightarrow> held s (t\<lparr>immediates := a17\<rparr>)"
  "held s t \<Longrightarrow> held s (t\<lparr>ssl_script := a18\<rparr>)"
  "held s t \<Longrightarrow> held s (t\<lparr>stream_script := a19\<rparr>)"
  "held s t \<Longrightarrow> held s (t\<lparr>eof := a20\<rparr>)"
  "held s t \<Longrightarrow> held s (t\<lparr>cert_cb := a21\<rparr>)"
  "held s t \<Longrightarrow> held s (t\<lparr>cert_cb_running := a22\<rparr>)"
  "held s t \<Longrightarrow> held s (t\<lparr>events := a23\<rparr>)"
  by (simp_all add: held_def)

lemma held_leaf [simp]:
  "held s t \<Longrightarrow> held s (emit e t)"
  "held s t \<Longrightarrow> held s (SetImmediate c t)"
  "held s t \<Longrightarrow> held s (engine_io r t)"
  "held s t \<Longrightarrow> held s (InvokeQueued st msg t)"
  "held s t \<Longrightarrow> held s (snd (stream_next t))"
  by (simp_all add: emit_def SetImmediate_def engine_io_def InvokeQueued_def stream_next_def
      split: option.splits list.splits)


lemma held_run_cb [simp]: "held s t \<Longrightarrow> held s (run_cb c t)"
  by (cases c)
     (simp_all add: SSLInfoCallback_def SSLInfoCallback_done_def NewSessionCallback_def
        SSLCertCallback_def SSLCertCallback_called_def, simp add: held_def emit_def)

lemma held_run_cbs [simp]: "held s t \<Longrightarrow> held s (run_cbs cs t)"
  by (induction cs arbitrary: t) simp_all

lemma held_ssl_call [simp]: "held s t \<Longrightarrow> held s (snd (ssl_call e t))"
  by (simp add: ssl_call_def ssl_effects_def split: list.splits)


lemma held_EncOut_blocks [simp]:
  "held s t \<Longrightarrow> held s (EncOut_split_off t)"
  "held s t \<Longrightarrow> held s (EncOut_no_output t)"
  "held s t \<Longrightarrow> held s (EncOut_written q t)"
  "held s t \<Longrightarrow> held s (ClearOut_eof t)"
  "held s t \<Longrightarrow> held s (OnStreamRead_status n t)"
  "held s t \<Longrightarrow> held s (DoShutdown_close t)"
  by (simp_all add: EncOut_split_off_def EncOut_no_output_def EncOut_written_def ClearOut_eof_def
      OnStreamRead_status_def DoShutdown_close_def)

lemma held_DoWrite_empty_write [simp]: "held s t \<Longrightarrow> held s (DoWrite_empty_write w (stream_next t))"
  by (cases "stream_next t") (use held_leaf(5) [of s t] in \<open>simp add: DoWrite_empty_write_def\<close>)


























section \<open>The certificate gate\<close>



section \<open>Transport writes in flight\<close>




section \<open>The end of file is delivered once\<close>

text \<open>
  C6. In every state a connection reaches, the trace delivers the end of file
  (\<open>EmitRead(UV_EOF)\<close>) at most once and delivers no plaintext after it, and \<open>eof_\<close> is set
  exactly when the end of file has been delivered. Once \<open>eof_\<close> is set, \<open>ClearOut\<close> does
  nothing, whatever the engine would answer and however often it is called, and a
  transport end of file is ignored.
\<close>

theorem eof_delivered_once:
  assumes "run ins (new_TLSWrap K engine transport) = Some s"
  shows "eof_once (events s) \<and> list_ex is_eof (events s) = eof s \<and>
         (eof s \<longrightarrow> ClearOut s = Some s \<and> OnStreamRead UV_EOF buf po s = Some s)"
proof -
  have "conn_inv K s" using conn_inv_new assms by (rule conn_inv_run)
  then have "eof_once (events s) \<and> list_ex is_eof (events s) = eof s"
    by (simp add: conn_inv_def base_inv_def eof_inv_def)
  moreover have "eof s \<longrightarrow> ClearOut s = Some s \<and> OnStreamRead UV_EOF buf po s = Some s"
    by (simp add: ClearOut_def OnStreamRead_def OnStreamRead_status_def UV_EOF_def)
  ultimately show ?thesis by blast
qed

theorem eof_delivered_once_witness:
  "case run [InStreamRead 1 [23] ParseWaiting, InStreamRead 1 [21] ParseWaiting,
             InStreamRead 1 [21] ParseWaiting, InStreamRead UV_EOF [] ParseWaiting]
          (new_TLSWrap kClient [plaintext_hi, close_notify, close_notify] []) of
     None \<Rightarrow> False
   | Some s \<Rightarrow> eof s \<and> eof_once (events s) \<and>
       filter (\<lambda>e. is_read e \<or> is_eof e) (events s) = [EmitRead [104, 105], EmitReadStatus UV_EOF] \<and>
       ClearOut s = Some s"
proof -
  let ?r = "run [InStreamRead 1 [23] ParseWaiting, InStreamRead 1 [21] ParseWaiting,
             InStreamRead 1 [21] ParseWaiting, InStreamRead UV_EOF [] ParseWaiting]
          (new_TLSWrap kClient [plaintext_hi, close_notify, close_notify] [])"
  have "?r \<noteq> None" by code_simp
  then obtain s where s: "?r = Some s" by auto
  have "eof (the ?r)" by code_simp
  with s have e: "eof s" by simp
  have "filter (\<lambda>e. is_read e \<or> is_eof e) (events (the ?r)) =
          [EmitRead [104, 105], EmitReadStatus UV_EOF]" by code_simp
  with s have f: "filter (\<lambda>e. is_read e \<or> is_eof e) (events s) =
          [EmitRead [104, 105], EmitReadStatus UV_EOF]" by simp
  from eof_delivered_once [OF s, of "[]" ParseWaiting] e f s show ?thesis by simp
qed

section \<open>The new-session hold\<close>




section \<open>Destroying a connection\<close>

lemma SSLWrap_DestroySSL_eq: "SSLWrap_DestroySSL s = s\<lparr>ssl := False\<rparr>"
  by (cases s) (simp add: SSLWrap_DestroySSL_def)

lemma DestroySSL_release_eq:
  "DestroySSL_release s = s\<lparr>enc_in := [], enc_out := [], stream := False\<rparr>"
  by (cases s) (simp add: DestroySSL_release_def)

lemma DestroySSL_eq:
  "DestroySSL s =
     (InvokeQueued UV_ECANCELED (Some ''Canceled because of SSL destruction'')
        (s\<lparr>write_callback_scheduled := True\<rparr>))
     \<lparr>ssl := False, enc_in := [], enc_out := [], stream := False\<rparr>"
  by (simp add: DestroySSL_def SSLWrap_DestroySSL_eq DestroySSL_release_eq)

lemma DestroySSL_fields:
  "current_write (DestroySSL s) = None"
  "write_callback_scheduled (DestroySSL s)"
  "\<not> ssl (DestroySSL s)"
  "cert_cb (DestroySSL s) = cert_cb s"
  "cert_cb_running (DestroySSL s) = cert_cb_running s"
  by (simp_all add: DestroySSL_eq InvokeQueued_def emit_def split: option.splits)

lemma DestroySSL_events:
  "events (DestroySSL s) =
     (case current_write s of
        Some w \<Rightarrow> events s @ [Done w UV_ECANCELED (Some ''Canceled because of SSL destruction'')]
      | None \<Rightarrow> events s)"
  by (simp add: DestroySSL_eq InvokeQueued_def emit_def split: option.splits)

lemma DestroySSL_idem: "DestroySSL (DestroySSL s) = DestroySSL s"
proof -
  let ?d = "DestroySSL s"
  have "InvokeQueued UV_ECANCELED (Some ''Canceled because of SSL destruction'')
          (?d\<lparr>write_callback_scheduled := True\<rparr>) = ?d\<lparr>write_callback_scheduled := True\<rparr>"
    by (simp add: InvokeQueued_def DestroySSL_fields)
  then have "DestroySSL ?d =
     ?d\<lparr>write_callback_scheduled := True, ssl := False, enc_in := [], enc_out := [], stream := False\<rparr>"
    by (simp add: DestroySSL_eq [of ?d])
  also have "\<dots> = ?d"
    by (rule TLSWrap.equality)
       (simp_all add: DestroySSL_eq [of s] InvokeQueued_def emit_def split: option.splits)
  finally show ?thesis .
qed

text \<open>
  C4, as amended. \<open>DestroySSL\<close> fails the pending plaintext write at once: a current
  write request is completed with \<open>UV_ECANCELED\<close> and forgotten, and nothing else is
  emitted. It releases the engine and leaves \<open>cert_cb_\<close> and \<open>cert_cb_running_\<close> as
  they are: a suspended certificate continuation is neither called nor cleared.
  Destroying twice is destroying once.
\<close>

theorem destroy_cancels_write:
  "(case current_write s of
      Some w \<Rightarrow> events (DestroySSL s) =
                  events s @ [Done w UV_ECANCELED (Some ''Canceled because of SSL destruction'')]
    | None \<Rightarrow> events (DestroySSL s) = events s) \<and>
   current_write (DestroySSL s) = None \<and>
   \<not> ssl (DestroySSL s) \<and>
   cert_cb (DestroySSL s) = cert_cb s \<and>
   cert_cb_running (DestroySSL s) = cert_cb_running s \<and>
   DestroySSL (DestroySSL s) = DestroySSL s"
  by (simp add: DestroySSL_fields DestroySSL_events DestroySSL_idem split: option.splits)

text \<open>
  C4, as stated (destroying resolves a suspended certificate continuation with a
  cancellation status), fails: a server waits for the certificate decision when the
  connection is destroyed; afterwards the continuation is still installed, the decision
  still counts as running, and the trace holds no call of the continuation and no error.
\<close>

theorem destroy_certificate_counterexample:
  "case run [InEnableCertCb, InStreamRead 1 [22] ParseWaiting, InDestroySSL]
          (new_TLSWrap kServer [cert_request] []) of
     None \<Rightarrow> False
   | Some s \<Rightarrow> \<not> ssl s \<and> is_waiting_cert_cb s \<and> cert_cb_running s \<and>
       events s = [SslRead, OnCertCb]"
  by code_simp

section \<open>A plaintext payload reaches the engine whole\<close>

lemma ssl_writes_snoc: "ssl_writes (tr @ [e]) = ssl_writes tr @ ssl_writes [e]"
  by (induction tr rule: ssl_writes.induct) simp_all

lemma payload_kept_refl [simp]: "payload_kept s s"
  by (simp add: payload_kept_def)

lemma payload_kept_upd [simp]:
  "payload_kept s t \<Longrightarrow> payload_kept s (t\<lparr>write_callback_scheduled := a1\<rparr>)"
  "payload_kept s t \<Longrightarrow> payload_kept s (t\<lparr>write_size := a2\<rparr>)"
  "payload_kept s t \<Longrightarrow> payload_kept s (t\<lparr>current_write := a3\<rparr>)"
  "payload_kept s t \<Longrightarrow> payload_kept s (t\<lparr>in_dowrite := a4\<rparr>)"
  "payload_kept s t \<Longrightarrow> payload_kept s (t\<lparr>ssl_script := a5\<rparr>)"
  "payload_kept s t \<Longrightarrow> payload_kept s (t\<lparr>established := a6\<rparr>)"
  "payload_kept s t \<Longrightarrow> payload_kept s (t\<lparr>awaiting_new_session := a7\<rparr>)"
  "payload_kept s t \<Longrightarrow> payload_kept s (t\<lparr>cert_cb_running := a8\<rparr>)"
  "payload_kept s t \<Longrightarrow> payload_kept s (t\<lparr>error := a9\<rparr>)"
  by (simp_all add: payload_kept_def)

lemma payload_kept_leaf [simp]:
  "payload_kept s t \<Longrightarrow> ssl_writes [e] = [] \<Longrightarrow> payload_kept s (emit e t)"
  "payload_kept s t \<Longrightarrow> payload_kept s (SetImmediate c t)"
  "payload_kept s t \<Longrightarrow> payload_kept s (engine_io r t)"
  "payload_kept s t \<Longrightarrow> payload_kept s (snd (stream_next t))"
  by (simp_all add: payload_kept_def emit_def SetImmediate_def engine_io_def stream_next_def
      ssl_writes_snoc split: list.splits)

lemma payload_kept_InvokeQueued [simp]: "payload_kept s t \<Longrightarrow> payload_kept s (InvokeQueued st msg t)"
  by (simp add: InvokeQueued_def split: option.splits)

lemma payload_kept_run_cb [simp]: "payload_kept s t \<Longrightarrow> payload_kept s (run_cb c t)"
  by (cases c)
     (simp_all add: SSLInfoCallback_def SSLInfoCallback_done_def NewSessionCallback_def
        SSLCertCallback_def SSLCertCallback_called_def)

lemma payload_kept_run_cbs [simp]: "payload_kept s t \<Longrightarrow> payload_kept s (run_cbs cs t)"
  by (induction cs arbitrary: t) simp_all











section \<open>The ClientHello sniffer gates the engine\<close>






end
